theory Spec2Isabelle
  imports Complex_Main "HOL-Library.Sublist"
begin

section \<open>The configuration catalog (package config)\<close>

text \<open>
  A compiled \<^verbatim>\<open>*regexp.Regexp\<close> is used by the program only through its method
  \<^verbatim>\<open>MatchString\<close>, so it is modelled by that method: a predicate on strings. A nil
  pointer is \<open>None\<close>.
\<close>

type_synonym Regexp = "string \<Rightarrow> bool"

type_synonym MetricName = string

definition MetricNsPerOp :: MetricName where
  "MetricNsPerOp = ''nsPerOp''"

definition MetricAllocsPerOp :: MetricName where
  "MetricAllocsPerOp = ''allocsPerOp''"

definition MetricBytesPerOp :: MetricName where
  "MetricBytesPerOp = ''bytesPerOp''"

definition MetricMBPerS :: MetricName where
  "MetricMBPerS = ''MBytesPerS''"

text \<open>
  \<^verbatim>\<open>type Object struct { ID, Title, Match, NotMatch string; match, notMatch *regexp.Regexp }\<close>.
  Field names carry the struct's name, since several structs have a field \<^verbatim>\<open>ID\<close>.
\<close>

record Object =
  Object_ID :: string
  Object_Title :: string
  Object_Match :: string
  Object_NotMatch :: string
  Object_match :: "Regexp option"
  Object_notMatch :: "Regexp option"

text \<open>\<^verbatim>\<open>Function\<close>, \<^verbatim>\<open>Context\<close> and \<^verbatim>\<open>Version\<close> embed \<^verbatim>\<open>Object\<close> and add nothing.\<close>

type_synonym Function = Object
type_synonym Context = Object
type_synonym Version = Object

record File =
  File_ID :: string
  File_MatchFile :: string
  File_Contexts :: "Context list"
  File_Versions :: "Version list"
  File_match :: "Regexp option"

record Metric =
  Metric_ID :: MetricName
  Metric_Title :: string
  Metric_Axis :: string

record Includes =
  Includes_Functions :: "string list"
  Includes_Versions :: "string list"
  Includes_Contexts :: "string list"
  Includes_Metrics :: "MetricName list"

record Category =
  Category_ID :: string
  Category_Title :: string
  Category_Includes :: Includes

text \<open>
  \<^verbatim>\<open>Config\<close>, without the rendering and output settings, which the classifier and the
  aggregator never read. The four indices are Go maps.
\<close>

record Config =
  Config_Name :: string
  Config_Environment :: string
  Config_Metrics :: "Metric list"
  Config_Functions :: "Function list"
  Config_Contexts :: "Context list"
  Config_Versions :: "Version list"
  Config_Categories :: "Category list"
  Config_Files :: "File list"
  functionIndex :: "string \<rightharpoonup> Function"
  contextIndex :: "string \<rightharpoonup> Context"
  versionIndex :: "string \<rightharpoonup> Version"
  metricIndex :: "MetricName \<rightharpoonup> Metric"

text \<open>The zero values a Go map lookup returns for a missing key.\<close>

definition zeroObject :: Object where
  "zeroObject = \<lparr>Object_ID = '''', Object_Title = '''', Object_Match = '''',
     Object_NotMatch = '''', Object_match = None, Object_notMatch = None\<rparr>"

definition zeroMetric :: Metric where
  "zeroMetric = \<lparr>Metric_ID = '''', Metric_Title = '''', Metric_Axis = ''''\<rparr>"

definition GetVersion :: "Config \<Rightarrow> string \<Rightarrow> Version \<times> bool" where
  "GetVersion c ident =
     (case versionIndex c ident of None \<Rightarrow> (zeroObject, False) | Some v \<Rightarrow> (v, True))"

definition GetMetric :: "Config \<Rightarrow> MetricName \<Rightarrow> Metric \<times> bool" where
  "GetMetric c ident =
     (case metricIndex c ident of None \<Rightarrow> (zeroMetric, False) | Some v \<Rightarrow> (v, True))"

subsection \<open>Matching one entry\<close>

text \<open>
  \<^verbatim>\<open>func (o Object) MatchString(name string) (id string, ok bool)\<close>: both flags start
  false and are set only by a matcher that is there.
\<close>

definition Object_MatchString :: "Object \<Rightarrow> string \<Rightarrow> string \<times> bool" where
  "Object_MatchString obj name =
     (let matcher = Object_match obj; notMatcher = Object_notMatch obj in
      if Option.is_none matcher \<and> Option.is_none notMatcher then ('''', False)
      else
        let matchOk = (case matcher of None \<Rightarrow> False | Some r \<Rightarrow> r name);
            notMatchOk = (case notMatcher of None \<Rightarrow> False | Some r \<Rightarrow> r name)
        in if matchOk \<and> \<not> notMatchOk then (Object_ID obj, True)
           else if Option.is_none matcher \<and> \<not> notMatchOk then (Object_ID obj, True)
           else ('''', False))"

text \<open>\<^verbatim>\<open>func (f File) MatchString(file string) (id string, ok bool)\<close>.\<close>

definition File_MatchString :: "File \<Rightarrow> string \<Rightarrow> string \<times> bool" where
  "File_MatchString f file =
     (case File_match f of
        None \<Rightarrow> ('''', False)
      | Some r \<Rightarrow> if \<not> r file then ('''', False) else (File_ID f, True))"

subsection \<open>Scanning a catalog\<close>

text \<open>
  The loop shared by the finders:
  \<^verbatim>\<open>for _, def := range defs { if id, ok := def.MatchString(name); ok { return id, true } }
  return "", false\<close>.
\<close>

fun scanObjects :: "Object list \<Rightarrow> string \<Rightarrow> string \<times> bool" where
  "scanObjects [] name = ('''', False)"
| "scanObjects (d # defs) name =
     (case Object_MatchString d name of
        (ident, True) \<Rightarrow> (ident, True)
      | (_, False) \<Rightarrow> scanObjects defs name)"

definition FindFunction :: "Config \<Rightarrow> string \<Rightarrow> string \<times> bool" where
  "FindFunction c name = scanObjects (Config_Functions c) name"

definition FindVersion :: "Config \<Rightarrow> string \<Rightarrow> string \<times> bool" where
  "FindVersion c name = scanObjects (Config_Versions c) name"

text \<open>\<^verbatim>\<open>FindContext\<close> ranges over \<^verbatim>\<open>c.Versions\<close> in the source.\<close>

definition FindContext :: "Config \<Rightarrow> string \<Rightarrow> string \<times> bool" where
  "FindContext c name = scanObjects (Config_Versions c) name"

text \<open>
  \<^verbatim>\<open>FindVersionFromFile\<close> and \<^verbatim>\<open>FindContextFromFile\<close>: a file rule that does not match
  is skipped (\<^verbatim>\<open>continue\<close>); in one that matches, the nested entries are tried on the
  same \<^verbatim>\<open>file\<close> string, and the outer loop goes on when none of them matches.
\<close>

fun scanFiles :: "(File \<Rightarrow> Object list) \<Rightarrow> File list \<Rightarrow> string \<Rightarrow> string \<times> bool" where
  "scanFiles nested [] file = ('''', False)"
| "scanFiles nested (d # defs) file =
     (if \<not> snd (File_MatchString d file) then scanFiles nested defs file
      else (case scanObjects (nested d) file of
              (ident, True) \<Rightarrow> (ident, True)
            | (_, False) \<Rightarrow> scanFiles nested defs file))"

definition FindVersionFromFile :: "Config \<Rightarrow> string \<Rightarrow> string \<times> bool" where
  "FindVersionFromFile c file = scanFiles File_Versions (Config_Files c) file"

definition FindContextFromFile :: "Config \<Rightarrow> string \<Rightarrow> string \<times> bool" where
  "FindContextFromFile c file = scanFiles File_Contexts (Config_Files c) file"

section \<open>The output model (package model)\<close>

text \<open>\<^verbatim>\<open>float64\<close> values are only copied by the code below, never computed with.\<close>

record MetricPoint =
  MetricPoint_Name :: string
  MetricPoint_Value :: real

record MetricSeries =
  MetricSeries_Title :: string
  MetricSeries_Points :: "MetricPoint list"

record CategoryData =
  CategoryData_Version :: Version
  CategoryData_Metric :: Metric
  CategoryData_Series :: "MetricSeries list"

text \<open>\<^verbatim>\<open>model.Category\<close>, as opposed to \<^verbatim>\<open>config.Category\<close> above.\<close>

record ModelCategory =
  ModelCategory_ID :: string
  ModelCategory_Title :: string
  ModelCategory_Environment :: string
  ModelCategory_Data :: "CategoryData list"

record Scenario =
  Scenario_Name :: string
  Scenario_Categories :: "ModelCategory list"

definition zeroModelCategory :: ModelCategory where
  "zeroModelCategory = \<lparr>ModelCategory_ID = '''', ModelCategory_Title = '''',
     ModelCategory_Environment = '''', ModelCategory_Data = []\<rparr>"

section \<open>Parsed input (packages parse and parser)\<close>

text \<open>
  \<^verbatim>\<open>parse.Benchmark\<close> of golang.org/x/tools. The two \<^verbatim>\<open>uint64\<close> counters are natural
  numbers below \<open>2 ^ 64\<close>, and a \<^verbatim>\<open>float64\<close> is the real number it stands for.
\<close>

record Benchmark =
  Benchmark_Name :: string
  Benchmark_N :: int
  Benchmark_NsPerOp :: real
  Benchmark_AllocedBytesPerOp :: nat
  Benchmark_AllocsPerOp :: nat
  Benchmark_MBPerS :: real

text \<open>
  \<^verbatim>\<open>parse.Set\<close> is \<^verbatim>\<open>map[string][]*Benchmark\<close>. The organizer only ranges over it, so
  a value of the model is the list of the map's entries in the order in which the
  \<^verbatim>\<open>range\<close> statement of one run visits them. Go fixes no such order: one map is every
  list of its entries, the keys not repeating, and what holds of a run of the program is
  what holds for all of these lists (see \<open>sameGoSet\<close> below).
\<close>

type_synonym ParseSet = "(string \<times> Benchmark list) list"

record ParserSet =
  Set_Set :: ParseSet
  Set_File :: string
  Set_Environment :: string

section \<open>The organizer (package organizer)\<close>

text \<open>
  \<^verbatim>\<open>ParsedBenchmark\<close> embeds \<^verbatim>\<open>model.SeriesKey\<close> (Function, Version, Context, Metric) and
  \<^verbatim>\<open>model.MetricPoint\<close> (Name, Value), and adds Environment.
\<close>

record ParsedBenchmark =
  ParsedBenchmark_Function :: string
  ParsedBenchmark_Version :: string
  ParsedBenchmark_Context :: string
  ParsedBenchmark_Metric :: MetricName
  ParsedBenchmark_Name :: string
  ParsedBenchmark_Value :: real
  ParsedBenchmark_Environment :: string

definition zeroParsedBenchmark :: ParsedBenchmark where
  "zeroParsedBenchmark = \<lparr>ParsedBenchmark_Function = '''', ParsedBenchmark_Version = '''',
     ParsedBenchmark_Context = '''', ParsedBenchmark_Metric = '''', ParsedBenchmark_Name = '''',
     ParsedBenchmark_Value = 0, ParsedBenchmark_Environment = ''''\<rparr>"

text \<open>
  What the logger receives: the level is always \<^verbatim>\<open>Warn\<close> here; a record is its message
  and its attributes. An argument passed without a key (\<^verbatim>\<open>v.l.Warn("... %q", name)\<close>) is
  filed by \<^verbatim>\<open>log/slog\<close> under the key \<^verbatim>\<open>!BADKEY\<close>. The attribute \<^verbatim>\<open>module\<close> that the
  organizer's logger adds to every record is left out.
\<close>

datatype LogRecord = Warn string "(string \<times> string) list"

definition defaultString :: "string \<Rightarrow> string \<Rightarrow> string" where
  "defaultString inp def = (if inp = '''' then def else inp)"

text \<open>
  \<^verbatim>\<open>parseBenchmarkName\<close>. The variable \<^verbatim>\<open>ok\<close> tested before the context fallback is the
  one \<^verbatim>\<open>FindVersion\<close> assigned: \<^verbatim>\<open>context, _ := v.cfg.FindContext(name)\<close> discards its
  own flag.
\<close>

definition parseBenchmarkName ::
  "Config \<Rightarrow> string \<Rightarrow> string \<Rightarrow> string \<Rightarrow> (ParsedBenchmark \<times> bool) \<times> LogRecord list" where
  "parseBenchmarkName cfg name file env =
     (case FindFunction cfg name of
        (_, False) \<Rightarrow>
          ((zeroParsedBenchmark, False), [Warn ''no function matched for %q'' [(''!BADKEY'', name)]])
      | (function, True) \<Rightarrow>
          (let (version0, ok) = FindVersion cfg name;
               version = (if \<not> ok then fst (FindVersionFromFile cfg file) else version0);
               context0 = fst (FindContext cfg name);
               context = (if \<not> ok then fst (FindContextFromFile cfg file) else context0);
               logged = (if version = '''' \<and> context = ''''
                         then [Warn ''no version, no context matched for %q'' [(''!BADKEY'', name)]]
                         else [])
           in ((\<lparr>ParsedBenchmark_Function = function, ParsedBenchmark_Version = version,
                  ParsedBenchmark_Context = context, ParsedBenchmark_Metric = '''',
                  ParsedBenchmark_Name = '''', ParsedBenchmark_Value = 0,
                  ParsedBenchmark_Environment = defaultString (Config_Environment cfg) env\<rparr>,
                True), logged)))"

text \<open>
  One of the four \<^verbatim>\<open>if metric, ok := v.cfg.GetMetric(...); ok { ... }\<close> blocks of
  \<^verbatim>\<open>parseBenchmarks\<close>: the state is the slice \<^verbatim>\<open>benchmarks\<close>, the variable \<^verbatim>\<open>parsed\<close>
  and the flag \<^verbatim>\<open>resolved\<close>.
\<close>

definition addMetric ::
  "Config \<Rightarrow> MetricName \<Rightarrow> real \<Rightarrow> ParsedBenchmark list \<times> ParsedBenchmark \<times> bool
     \<Rightarrow> ParsedBenchmark list \<times> ParsedBenchmark \<times> bool" where
  "addMetric cfg mname val st =
     (case st of (benchmarks, parsed, resolved) \<Rightarrow>
        (case GetMetric cfg mname of
           (metric, True) \<Rightarrow>
             (let parsed' = parsed\<lparr>ParsedBenchmark_Metric := Metric_ID metric,
                                   ParsedBenchmark_Name := Metric_Title metric,
                                   ParsedBenchmark_Value := val\<rparr>
              in (benchmarks @ [parsed'], parsed', True))
         | (_, False) \<Rightarrow> (benchmarks, parsed, resolved)))"

text \<open>
  Go's conversion \<^verbatim>\<open>float64(n)\<close> of a \<^verbatim>\<open>uint64\<close>. A \<^verbatim>\<open>float64\<close> has a significand of
  53 bits: a number below \<open>2 ^ 53\<close> is converted exactly, and a larger one is rounded to
  the nearest multiple of the weight of its 53rd bit, to the even one of two that are
  equally near.
\<close>

fun bitLength :: "nat \<Rightarrow> nat" where
  "bitLength n = (if n = 0 then 0 else Suc (bitLength (n div 2)))"

declare bitLength.simps [simp del]

definition float64 :: "nat \<Rightarrow> real" where
  "float64 n =
     (if n < 2 ^ 53 then real n
      else (let ulp = 2 ^ (bitLength n - 53); q = n div ulp; r = n mod ulp
            in real ((if ulp < 2 * r \<or> (ulp = 2 * r \<and> odd q) then q + 1 else q) * ulp)))"

text \<open>
  The body of the innermost loop of \<^verbatim>\<open>parseBenchmarks\<close>, for one \<^verbatim>\<open>bench\<close>; the state is
  the slice \<^verbatim>\<open>benchmarks\<close> and what has been logged so far.
\<close>

definition ingest ::
  "Config \<Rightarrow> string \<Rightarrow> string \<Rightarrow> Benchmark
     \<Rightarrow> ParsedBenchmark list \<times> LogRecord list \<Rightarrow> ParsedBenchmark list \<times> LogRecord list" where
  "ingest cfg file env bench st =
     (case st of (benchmarks, logged) \<Rightarrow>
        (case parseBenchmarkName cfg (Benchmark_Name bench) file env of
           ((_, False), l) \<Rightarrow>
             (benchmarks,
              logged @ l @ [Warn ''benchmark not ingested''
                              [(''file'', file), (''benchmark_name'', Benchmark_Name bench)]])
         | ((parsed, True), l) \<Rightarrow>
             (case addMetric cfg MetricMBPerS (Benchmark_MBPerS bench)
                    (addMetric cfg MetricBytesPerOp (float64 (Benchmark_AllocedBytesPerOp bench))
                      (addMetric cfg MetricAllocsPerOp (float64 (Benchmark_AllocsPerOp bench))
                        (addMetric cfg MetricNsPerOp (Benchmark_NsPerOp bench)
                          (benchmarks, parsed, False)))) of
                (benchmarks', _, resolved) \<Rightarrow>
                  (benchmarks',
                   logged @ l @
                     (if \<not> resolved
                      then [Warn ''no benchmark metric ingested''
                              [(''file'', file), (''benchmark_name'', Benchmark_Name bench)]]
                      else [])))))"

text \<open>
  \<^verbatim>\<open>parseBenchmarks\<close>: three nested \<^verbatim>\<open>range\<close> loops, then the warning for an empty
  result. The second component is the log.
\<close>

definition parseBenchmarks :: "Config \<Rightarrow> ParserSet list \<Rightarrow> ParsedBenchmark list \<times> LogRecord list" where
  "parseBenchmarks cfg sets =
     (case fold (\<lambda>s. fold (\<lambda>(_, benchs). fold (ingest cfg (Set_File s) (Set_Environment s)) benchs)
                        (Set_Set s))
             sets ([], []) of
        (benchmarks, logged) \<Rightarrow>
          (benchmarks,
           logged @ (if length benchmarks = 0 then [Warn ''benchmark set is empty'' []] else [])))"

text \<open>
  The body of the innermost loop of \<^verbatim>\<open>SeriesFor\<close>; the state is the slice \<^verbatim>\<open>series\<close> and
  the map \<^verbatim>\<open>indexSeries\<close>. The index read from the map is always inside the slice
  (lemmas \<open>seriesInv_index_in_range\<close> and \<open>seriesLoop_inv\<close> below), so
  \<^verbatim>\<open>series[idx]\<close> never panics.
\<close>

definition pointOf :: "ParsedBenchmark \<Rightarrow> MetricPoint" where
  "pointOf bench =
     \<lparr>MetricPoint_Name = ParsedBenchmark_Function bench @ '' - '' @ ParsedBenchmark_Version bench
                          @ '' - '' @ ParsedBenchmark_Context bench,
      MetricPoint_Value = ParsedBenchmark_Value bench\<rparr>"

definition seriesStep ::
  "MetricName \<Rightarrow> string \<Rightarrow> string \<Rightarrow> string \<Rightarrow> ParsedBenchmark
     \<Rightarrow> MetricSeries list \<times> (string \<rightharpoonup> nat) \<Rightarrow> MetricSeries list \<times> (string \<rightharpoonup> nat)" where
  "seriesStep metric version wantFunction wantContext bench st =
     (case st of (series, indexSeries) \<Rightarrow>
        if ParsedBenchmark_Metric bench \<noteq> metric \<or> ParsedBenchmark_Function bench \<noteq> wantFunction
           \<or> ParsedBenchmark_Version bench \<noteq> version \<or> ParsedBenchmark_Context bench \<noteq> wantContext
        then (series, indexSeries)
        else
          (case (case indexSeries (ParsedBenchmark_Function bench) of
                   Some i \<Rightarrow> (i, series, indexSeries)
                 | None \<Rightarrow>
                     (length series,
                      series @ [\<lparr>MetricSeries_Title = version, MetricSeries_Points = []\<rparr>],
                      indexSeries(ParsedBenchmark_Function bench \<mapsto> length series))) of
             (idx, series', indexSeries') \<Rightarrow>
               (let points = MetricSeries_Points (series' ! idx) @ [pointOf bench]
                in (series'[idx := (series' ! idx)\<lparr>MetricSeries_Points := points\<rparr>],
                    indexSeries'))))"

definition seriesLoop ::
  "ParsedBenchmark list \<Rightarrow> MetricName \<Rightarrow> string \<Rightarrow> string list \<Rightarrow> string list
     \<Rightarrow> MetricSeries list \<times> (string \<rightharpoonup> nat) \<Rightarrow> MetricSeries list \<times> (string \<rightharpoonup> nat)" where
  "seriesLoop set' metric version functions contexts =
     fold (\<lambda>wantFunction.
             fold (\<lambda>wantContext. fold (seriesStep metric version wantFunction wantContext) set')
               contexts)
       functions"

definition SeriesFor ::
  "ParsedBenchmark list \<Rightarrow> MetricName \<Rightarrow> string \<Rightarrow> Category \<Rightarrow> MetricSeries list" where
  "SeriesFor set' metric version filter' =
     fst (seriesLoop set' metric version (Includes_Functions (Category_Includes filter'))
            (Includes_Contexts (Category_Includes filter')) ([], Map.empty))"

text \<open>
  \<^verbatim>\<open>populateCategories\<close>. The slice \<^verbatim>\<open>scenario.Categories\<close> is made with
  \<^verbatim>\<open>make([]model.Category, len(v.cfg.Categories))\<close>, that is with that many zero values
  already in it, and every category is then appended. The variable \<^verbatim>\<open>data\<close> has its
  three fields assigned before each append.
\<close>

definition categoryData :: "Config \<Rightarrow> ParsedBenchmark list \<Rightarrow> Category \<Rightarrow> CategoryData list" where
  "categoryData cfg set' categoryConfig =
     fold (\<lambda>metricID.
             let metric = fst (GetMetric cfg metricID) in
             fold (\<lambda>versionID data.
                     let version = fst (GetVersion cfg versionID) in
                     data @ [\<lparr>CategoryData_Version = version, CategoryData_Metric = metric,
                              CategoryData_Series =
                                SeriesFor set' (Metric_ID metric) (Object_ID version) categoryConfig\<rparr>])
               (Includes_Versions (Category_Includes categoryConfig)))
       (Includes_Metrics (Category_Includes categoryConfig)) []"

definition populateCategories :: "Config \<Rightarrow> ParsedBenchmark list \<Rightarrow> Scenario" where
  "populateCategories cfg set' =
     \<lparr>Scenario_Name = Config_Name cfg,
      Scenario_Categories =
        fold (\<lambda>categoryConfig categories.
                categories @
                  [\<lparr>ModelCategory_ID = Category_ID categoryConfig,
                    ModelCategory_Title = Category_Title categoryConfig,
                    ModelCategory_Environment = Config_Environment cfg,
                    ModelCategory_Data = categoryData cfg set' categoryConfig\<rparr>])
          (Config_Categories cfg)
          (replicate (length (Config_Categories cfg)) zeroModelCategory)\<rparr>"

text \<open>\<^verbatim>\<open>Scenarize\<close>, with the log of \<^verbatim>\<open>parseBenchmarks\<close> beside the scenario.\<close>

definition Scenarize :: "Config \<Rightarrow> ParserSet list \<Rightarrow> Scenario \<times> LogRecord list" where
  "Scenarize cfg sets =
     (case parseBenchmarks cfg sets of
        (newSet, logged) \<Rightarrow> (populateCategories cfg newSet, logged))"

section \<open>Report ingestion (package parser)\<close>

text \<open>
  Errors: an error of the operating system or of a library, by its message; the scanner's
  \<^verbatim>\<open>bufio.ErrTooLong\<close>; an error of \<^verbatim>\<open>parse.ParseSet\<close>; and
  \<^verbatim>\<open>fmt.Errorf(format, args..., err)\<close> around another error.
\<close>

datatype error =
    IOError string
  | ErrTooLong
  | ParseError string
  | Errorf string "string list" error

text \<open>\<^verbatim>\<open>testEvent\<close>: one event of \<^verbatim>\<open>go test -json\<close>.\<close>

record testEvent =
  testEvent_Time :: string
  testEvent_Action :: string
  testEvent_Package :: string
  testEvent_Test :: string
  testEvent_Output :: string
  testEvent_Elapsed :: real

text \<open>
  Library functions the parser calls and this repository does not define, taken as
  parameters:
  \<^item> \<^verbatim>\<open>parse.ParseSet\<close> of golang.org/x/tools, applied to a reader over the given text;
    the list it returns stands for the map only, and the order of a later \<^verbatim>\<open>range\<close> over
    that map is any order of the list's entries;
  \<^item> \<^verbatim>\<open>json.Unmarshal(line, &event)\<close> on a zero \<^verbatim>\<open>testEvent\<close>: the decoded event, or
    \<open>None\<close> for an error;
  \<^item> \<^verbatim>\<open>strings.TrimSpace\<close>.
\<close>

record Lib =
  Lib_ParseSet :: "string \<Rightarrow> error + ParseSet"
  Lib_Unmarshal :: "string \<Rightarrow> testEvent option"
  Lib_TrimSpace :: "string \<Rightarrow> string"

text \<open>
  An \<^verbatim>\<open>io.Reader\<close>: the bytes it delivers, and the error it ends with when that is not
  \<^verbatim>\<open>io.EOF\<close>.
\<close>

datatype Reader = Reader string "error option"

definition ReadAll :: "Reader \<Rightarrow> string \<times> error option" where
  "ReadAll r = (case r of Reader content err \<Rightarrow> (content, err))"

definition newline :: char where
  "newline = CHR 0x0A"

definition carriageReturn :: char where
  "carriageReturn = CHR 0x0D"

text \<open>\<^verbatim>\<open>strings.Split(text, sep)\<close> for a separator of one byte: one piece more than separators.\<close>

fun Split :: "string \<Rightarrow> char \<Rightarrow> string list" where
  "Split [] sep = [[]]"
| "Split (x # xs) sep =
     (if x = sep then [] # Split xs sep
      else (case Split xs sep of [] \<Rightarrow> [[x]] | l # ls \<Rightarrow> (x # l) # ls))"

text \<open>\<^verbatim>\<open>strings.Join(parts, sep)\<close>.\<close>

fun Join :: "string list \<Rightarrow> string \<Rightarrow> string" where
  "Join [] sep = []"
| "Join [p] sep = p"
| "Join (p # q # ps) sep = p @ sep @ Join (q # ps) sep"

text \<open>
  \<^verbatim>\<open>extractEnvironment\<close>: the loop body, then the function. \<^verbatim>\<open>strings.TrimPrefix\<close> after a
  successful \<^verbatim>\<open>strings.HasPrefix\<close> drops the prefix's bytes.
\<close>

definition environmentStep :: "Lib \<Rightarrow> string \<Rightarrow> string list \<Rightarrow> string list" where
  "environmentStep lib line0 parts =
     (let line = Lib_TrimSpace lib line0 in
      if prefix ''goos: '' line then parts @ [drop (length ''goos: '') line]
      else if prefix ''goarch: '' line then parts @ [drop (length ''goarch: '') line]
      else if prefix ''cpu: '' line
      then (let cpu = Lib_TrimSpace lib (drop (length ''cpu: '') line)
            in parts @ [''cpu: '' @ cpu])
      else parts)"

definition extractEnvironment :: "Lib \<Rightarrow> string \<Rightarrow> string" where
  "extractEnvironment lib text =
     (let parts = fold (environmentStep lib) (Split text newline) [] in
      if length parts = 0 then ''unknown environment'' else Join parts '' '')"

definition zeroSet :: ParserSet where
  "zeroSet = \<lparr>Set_Set = [], Set_File = '''', Set_Environment = ''''\<rparr>"

text \<open>\<^verbatim>\<open>parseText\<close>; the result is Go's pair \<^verbatim>\<open>(Set, error)\<close>.\<close>

definition parseText :: "Lib \<Rightarrow> Reader \<Rightarrow> ParserSet \<times> error option" where
  "parseText lib r =
     (case ReadAll r of
        (_, Some err) \<Rightarrow> (zeroSet, Some (Errorf ''reading input: %w'' [] err))
      | (content, None) \<Rightarrow>
          (let environment = extractEnvironment lib content in
           case Lib_ParseSet lib content of
             Inl err \<Rightarrow> (zeroSet, Some err)
           | Inr set' \<Rightarrow>
               (\<lparr>Set_Set = set', Set_File = '''', Set_Environment = environment\<rparr>, None)))"

text \<open>
  \<^verbatim>\<open>bufio.Scanner\<close> with its default split function \<^verbatim>\<open>ScanLines\<close> and its default
  buffer, as the standard library documents them: the tokens are the lines of the input
  without their end-of-line marker (a newline, with one carriage return before it
  dropped), a last line with no newline is a token when it is not empty, and scanning
  stops with \<^verbatim>\<open>ErrTooLong\<close> at a line that does not fit the buffer of
  \<^verbatim>\<open>MaxScanTokenSize\<close> bytes. \<open>Scanner_run\<close> gives the tokens \<^verbatim>\<open>Scan\<close> delivers and
  then what \<^verbatim>\<open>Err\<close> returns.
\<close>

definition MaxScanTokenSize :: nat where
  "MaxScanTokenSize = 64 * 1024"

definition dropCR :: "string \<Rightarrow> string" where
  "dropCR l = (if l \<noteq> [] \<and> last l = carriageReturn then butlast l else l)"

definition rawLines :: "string \<Rightarrow> string list" where
  "rawLines content =
     (let pieces = Split content newline in
      if last pieces = [] then butlast pieces else pieces)"

fun scanTokens :: "string list \<Rightarrow> string list \<times> bool" where
  "scanTokens [] = ([], False)"
| "scanTokens (l # ls) =
     (if MaxScanTokenSize \<le> length l then ([], True)
      else (case scanTokens ls of (ts, tooLong) \<Rightarrow> (dropCR l # ts, tooLong)))"

definition Scanner_run :: "Reader \<Rightarrow> string list \<times> error option" where
  "Scanner_run r =
     (case r of Reader content err \<Rightarrow>
        (case scanTokens (rawLines content) of
           (ts, True) \<Rightarrow> (ts, Some ErrTooLong)
         | (ts, False) \<Rightarrow> (ts, err)))"

text \<open>The body of the scanning loop of \<^verbatim>\<open>parseJSON\<close>; the state is \<^verbatim>\<open>textOutput\<close>.\<close>

definition collectOutput :: "Lib \<Rightarrow> string \<Rightarrow> string \<Rightarrow> string" where
  "collectOutput lib line textOutput =
     (if length line = 0 then textOutput
      else (case Lib_Unmarshal lib line of
              None \<Rightarrow> textOutput
            | Some event \<Rightarrow>
                if testEvent_Action event = ''output'' \<and> testEvent_Output event \<noteq> ''''
                then textOutput @ testEvent_Output event
                else textOutput))"

definition parseJSON :: "Lib \<Rightarrow> Reader \<Rightarrow> ParserSet \<times> error option" where
  "parseJSON lib r =
     (case Scanner_run r of
        (tokens, scanErr) \<Rightarrow>
          (let outputText = fold (collectOutput lib) tokens [] in
           case scanErr of
             Some err \<Rightarrow> (zeroSet, Some (Errorf ''scanning input: %w'' [] err))
           | None \<Rightarrow>
               (let environment = extractEnvironment lib outputText in
                case Lib_ParseSet lib outputText of
                  Inl err \<Rightarrow> (zeroSet, Some (Errorf ''parsing benchmark output: %w'' [] err))
                | Inr set' \<Rightarrow>
                    (\<lparr>Set_Set = set', Set_File = '''', Set_Environment = environment\<rparr>, None))))"

definition ParseInput :: "Lib \<Rightarrow> bool \<Rightarrow> Reader \<Rightarrow> ParserSet \<times> error option" where
  "ParseInput lib isJSON r = (if isJSON then parseJSON lib r else parseText lib r)"

text \<open>
  \<^verbatim>\<open>ParseFiles\<close>: each file comes with what opening it gives, an error or a reader (for
  \<^verbatim>\<open>"-"\<close> the standard input, which cannot fail to open). The state is \<^verbatim>\<open>p.sets\<close>; the
  first error ends the loop.
\<close>

fun ParseFiles ::
  "Lib \<Rightarrow> bool \<Rightarrow> (string \<times> (error + Reader)) list \<Rightarrow> ParserSet list
     \<Rightarrow> ParserSet list \<times> error option" where
  "ParseFiles lib isJSON [] sets = (sets, None)"
| "ParseFiles lib isJSON ((file, opened) # files) sets =
     (case opened of
        Inl err \<Rightarrow> (sets, Some (Errorf ''input file %q: %w'' [file] err))
      | Inr reader \<Rightarrow>
          (case ParseInput lib isJSON reader of
             (_, Some err) \<Rightarrow> (sets, Some err)
           | (set', None) \<Rightarrow>
               ParseFiles lib isJSON files (sets @ [set'\<lparr>Set_File := file\<rparr>])))"

section \<open>Reference definitions and example inputs\<close>

text \<open>
  File-rule resolution in the words of the specification. A rule's file-path pattern
  matches a source path when the rule has a compiled pattern and the path satisfies it.
  An entry matches a string by the rule of the matcher: with an inclusion pattern, when
  the string satisfies it and satisfies no exclusion pattern; with an exclusion pattern
  only, when the string does not satisfy it; with neither, never. The (rule, nested
  entry) pairs are taken in declaration order, rules first and nested entries within a
  rule, and the first pair whose rule's pattern matches the source path and whose entry
  matches the same source path gives the identifier.
\<close>

definition fileRuleMatches :: "File \<Rightarrow> string \<Rightarrow> bool" where
  "fileRuleMatches rule file = (case File_match rule of None \<Rightarrow> False | Some r \<Rightarrow> r file)"

definition entryMatches :: "Object \<Rightarrow> string \<Rightarrow> bool" where
  "entryMatches entry s =
     (case (Object_match entry, Object_notMatch entry) of
        (Some r, Some n) \<Rightarrow> r s \<and> \<not> n s
      | (Some r, None) \<Rightarrow> r s
      | (None, Some n) \<Rightarrow> \<not> n s
      | (None, None) \<Rightarrow> False)"

definition firstFileMatch :: "(File \<Rightarrow> Object list) \<Rightarrow> File list \<Rightarrow> string \<Rightarrow> string \<times> bool" where
  "firstFileMatch nested files file =
     (case find (\<lambda>(rule, entry). fileRuleMatches rule file \<and> entryMatches entry file)
             (concat (map (\<lambda>rule. map (Pair rule) (nested rule)) files)) of
        None \<Rightarrow> ('''', False)
      | Some (rule, entry) \<Rightarrow> (Object_ID entry, True))"

text \<open>
  The catalog of the specification's concrete scenario A. In Go's regular expressions
  \<^verbatim>\<open>^\<close> stands for the beginning of the text and \<^verbatim>\<open>$\<close> for its end (no multi-line
  flag is set), and a pattern without them matches anywhere in the text: the compiled
  \<^verbatim>\<open>^BenchmarkEqual\<close> is the prefix test, \<^verbatim>\<open>_generic$\<close> the suffix test and \<^verbatim>\<open>/int-\<close>
  the test for a contiguous occurrence.
\<close>

definition exFunction :: Function where
  "exFunction = \<lparr>Object_ID = ''equal'', Object_Title = ''Equal'',
     Object_Match = ''^BenchmarkEqual'', Object_NotMatch = '''',
     Object_match = Some (prefix ''BenchmarkEqual''), Object_notMatch = None\<rparr>"

definition exVersion :: Version where
  "exVersion = \<lparr>Object_ID = ''generic'', Object_Title = ''Generic'',
     Object_Match = ''_generic$'', Object_NotMatch = '''',
     Object_match = Some (suffix ''_generic''), Object_notMatch = None\<rparr>"

definition exContext :: Context where
  "exContext = \<lparr>Object_ID = ''int'', Object_Title = ''Int'',
     Object_Match = ''/int-'', Object_NotMatch = '''',
     Object_match = Some (sublist ''/int-''), Object_notMatch = None\<rparr>"

definition exMetric :: Metric where
  "exMetric = \<lparr>Metric_ID = MetricNsPerOp, Metric_Title = ''Ns Per Op'', Metric_Axis = ''ns/op''\<rparr>"

definition exCategory :: Category where
  "exCategory = \<lparr>Category_ID = ''all'', Category_Title = ''All'',
     Category_Includes = \<lparr>Includes_Functions = [''equal''], Includes_Versions = [''generic''],
       Includes_Contexts = [''int''], Includes_Metrics = [MetricNsPerOp]\<rparr>\<rparr>"

text \<open>
  \<^verbatim>\<open>load\<close> fills the indices before it compiles the patterns, and the compiled patterns
  are stored in the entries of the slices only: an entry of an index is the copy of its
  catalog entry whose two compiled patterns are \<^verbatim>\<open>nil\<close>.
\<close>

definition exIndexed :: "Object \<Rightarrow> Object" where
  "exIndexed entry = entry\<lparr>Object_match := None, Object_notMatch := None\<rparr>"

definition exConfig :: Config where
  "exConfig = \<lparr>Config_Name = ''example'', Config_Environment = '''',
     Config_Metrics = [exMetric], Config_Functions = [exFunction], Config_Contexts = [exContext],
     Config_Versions = [exVersion], Config_Categories = [exCategory], Config_Files = [],
     functionIndex = [''equal'' \<mapsto> exIndexed exFunction],
     contextIndex = [''int'' \<mapsto> exIndexed exContext],
     versionIndex = [''generic'' \<mapsto> exIndexed exVersion],
     metricIndex = [MetricNsPerOp \<mapsto> exMetric]\<rparr>"

text \<open>
  The records \<^verbatim>\<open>parseBenchmarks\<close> appends for one measurement, and for one parsed report:
  its loops started on an empty slice.
\<close>

definition recordsOfBench :: "Config \<Rightarrow> string \<Rightarrow> string \<Rightarrow> Benchmark \<Rightarrow> ParsedBenchmark list" where
  "recordsOfBench cfg file env bench = fst (ingest cfg file env bench ([], []))"

definition recordsOfSet :: "Config \<Rightarrow> ParserSet \<Rightarrow> ParsedBenchmark list" where
  "recordsOfSet cfg s =
     concat (map (\<lambda>(_, benchs).
                    concat (map (recordsOfBench cfg (Set_File s) (Set_Environment s)) benchs))
               (Set_Set s))"



text \<open>All the points of a scenario.\<close>

definition scenarioPoints :: "Scenario \<Rightarrow> MetricPoint list" where
  "scenarioPoints sc =
     concat (map MetricSeries_Points
               (concat (map CategoryData_Series
                          (concat (map ModelCategory_Data (Scenario_Categories sc))))))"

text \<open>The measurement of scenario A, in a report read from \<^verbatim>\<open>bench.txt\<close>.\<close>

definition exBench :: Benchmark where
  "exBench = \<lparr>Benchmark_Name = ''BenchmarkEqual_generic/int-8'', Benchmark_N = 1000,
     Benchmark_NsPerOp = 12.3, Benchmark_AllocedBytesPerOp = 0, Benchmark_AllocsPerOp = 0,
     Benchmark_MBPerS = 0\<rparr>"

definition exSet :: ParserSet where
  "exSet = \<lparr>Set_Set = [(''BenchmarkEqual_generic/int-8'', [exBench])], Set_File = ''bench.txt'',
     Set_Environment = ''linux amd64''\<rparr>"


text \<open>
  Scenario A with a file rule added: reports whose path contains \<^verbatim>\<open>baseline\<close> give the
  context \<^verbatim>\<open>int\<close>.
\<close>

definition exFileContext :: Context where
  "exFileContext = \<lparr>Object_ID = ''int'', Object_Title = ''Int'',
     Object_Match = ''baseline'', Object_NotMatch = '''',
     Object_match = Some (sublist ''baseline''), Object_notMatch = None\<rparr>"

definition exFile :: File where
  "exFile = \<lparr>File_ID = ''baseline'', File_MatchFile = ''baseline'',
     File_Contexts = [exFileContext], File_Versions = [],
     File_match = Some (sublist ''baseline'')\<rparr>"

definition exConfigFile :: Config where
  "exConfigFile = exConfig\<lparr>Config_Files := [exFile]\<rparr>"

text \<open>The classified record scenario A expects for its measurement.\<close>

definition exRecord :: "real \<Rightarrow> ParsedBenchmark" where
  "exRecord v = \<lparr>ParsedBenchmark_Function = ''equal'', ParsedBenchmark_Version = ''generic'',
     ParsedBenchmark_Context = ''int'', ParsedBenchmark_Metric = MetricNsPerOp,
     ParsedBenchmark_Name = ''Ns Per Op'', ParsedBenchmark_Value = v,
     ParsedBenchmark_Environment = ''linux amd64''\<rparr>"

text \<open>
  The series of one selection in the words of the specification. A record matches a
  (metric, version, function, context) combination when its four keys are these. The
  points of a function are its matching records, context after context in the category's
  order and record after record within a context. There is one series per function of
  the category's list that has a point, in the order in which these functions first
  occur in the list; it is titled by the version and holds the function's points, once
  for each time the list names the function.
\<close>

definition matchesKey :: "MetricName \<Rightarrow> string \<Rightarrow> string \<Rightarrow> string \<Rightarrow> ParsedBenchmark \<Rightarrow> bool" where
  "matchesKey metric version function context bench =
     (ParsedBenchmark_Metric bench = metric \<and> ParsedBenchmark_Function bench = function
      \<and> ParsedBenchmark_Version bench = version \<and> ParsedBenchmark_Context bench = context)"

definition pointsFor ::
  "ParsedBenchmark list \<Rightarrow> MetricName \<Rightarrow> string \<Rightarrow> string list \<Rightarrow> string \<Rightarrow> MetricPoint list" where
  "pointsFor recs metric version contexts function =
     concat (map (\<lambda>context. map pointOf (filter (matchesKey metric version function context) recs))
               contexts)"

fun firstOccurrences :: "'a list \<Rightarrow> 'a list" where
  "firstOccurrences [] = []"
| "firstOccurrences (x # xs) = x # filter (\<lambda>y. y \<noteq> x) (firstOccurrences xs)"

definition seriesSpec ::
  "ParsedBenchmark list \<Rightarrow> MetricName \<Rightarrow> string \<Rightarrow> Category \<Rightarrow> MetricSeries list" where
  "seriesSpec recs metric version filter' =
     (let functions = Includes_Functions (Category_Includes filter');
          points = pointsFor recs metric version (Includes_Contexts (Category_Includes filter'))
      in map (\<lambda>function.
                \<lparr>MetricSeries_Title = version,
                 MetricSeries_Points = concat (map points (filter (\<lambda>g. g = function) functions))\<rparr>)
           (firstOccurrences (filter (\<lambda>function. points function \<noteq> []) functions)))"

text \<open>
  For the proofs: what the loops of \<^verbatim>\<open>SeriesFor\<close> do to their state for one function
  with the points \<open>ps\<close>, and the invariant of that state, \<open>keys\<close> being the functions
  that have a series, in the order of the slice.
\<close>

definition appendAt ::
  "string \<Rightarrow> string \<Rightarrow> MetricPoint list \<Rightarrow> MetricSeries list \<times> (string \<rightharpoonup> nat)
     \<Rightarrow> MetricSeries list \<times> (string \<rightharpoonup> nat)" where
  "appendAt version function ps st =
     (case st of (series, indexSeries) \<Rightarrow>
        if ps = [] then (series, indexSeries)
        else (case indexSeries function of
                Some i \<Rightarrow>
                  (series[i := (series ! i)\<lparr>MetricSeries_Points :=
                                              MetricSeries_Points (series ! i) @ ps\<rparr>],
                   indexSeries)
              | None \<Rightarrow>
                  (series @ [\<lparr>MetricSeries_Title = version, MetricSeries_Points = ps\<rparr>],
                   indexSeries(function \<mapsto> length series))))"

definition seriesInv :: "string list \<Rightarrow> MetricSeries list \<times> (string \<rightharpoonup> nat) \<Rightarrow> bool" where
  "seriesInv keys st =
     (case st of (series, indexSeries) \<Rightarrow>
        distinct keys \<and> length keys = length series
        \<and> (\<forall>k i. (indexSeries k = Some i) = (i < length keys \<and> keys ! i = k)))"

text \<open>
  A structured event stream: the given lines, each ended by a newline, as
  \<^verbatim>\<open>go test -json\<close> writes them. The text a list of events carries: the \<^verbatim>\<open>Output\<close>
  payloads of the events whose \<^verbatim>\<open>Action\<close> is \<^verbatim>\<open>output\<close>, in order.
\<close>

definition eventStream :: "string list \<Rightarrow> string" where
  "eventStream lines = concat (map (\<lambda>line. line @ [newline]) lines)"

definition outputText :: "testEvent list \<Rightarrow> string" where
  "outputText events =
     concat (map testEvent_Output (filter (\<lambda>event. testEvent_Action event = ''output'') events))"

text \<open>
  A line encodes an event when it has no newline inside and what the scanner makes of it
  (the line without a carriage return at its end) is not empty and decodes to the event.
\<close>

definition encodesEvent :: "Lib \<Rightarrow> string \<Rightarrow> testEvent \<Rightarrow> bool" where
  "encodesEvent lib line event =
     (newline \<notin> set line \<and> dropCR line \<noteq> [] \<and> Lib_Unmarshal lib (dropCR line) = Some event)"

text \<open>
  Library functions for the examples. The decoder reads the lines
  \<^verbatim>\<open>{"Action":"output","Output":"..."}\<close> whose payload needs no escape, as
  \<^verbatim>\<open>json.Unmarshal\<close> does, and rejects every other line; the benchmark parser is
  \<^verbatim>\<open>parse.ParseSet\<close> on a report with no benchmark line, which reads its input with a
  \<^verbatim>\<open>bufio.Scanner\<close> of its own and returns that scanner's error or else the empty set;
  the trimming is the one of a text with no white space at either end.
\<close>

definition exLinePrefix :: string where
  \<open>exLinePrefix = ''{"Action":"output","Output":"''\<close>

definition exLineSuffix :: string where
  \<open>exLineSuffix = ''"}''\<close>

definition exUnmarshal :: "string \<Rightarrow> testEvent option" where
  "exUnmarshal line =
     (if prefix exLinePrefix line \<and> suffix exLineSuffix line
         \<and> length exLinePrefix + length exLineSuffix \<le> length line
      then Some \<lparr>testEvent_Time = '''', testEvent_Action = ''output'', testEvent_Package = '''',
                  testEvent_Test = '''',
                  testEvent_Output =
                    take (length line - length exLinePrefix - length exLineSuffix)
                      (drop (length exLinePrefix) line),
                  testEvent_Elapsed = 0\<rparr>
      else None)"

definition exParseSet :: "string \<Rightarrow> error + ParseSet" where
  "exParseSet text =
     (case scanTokens (rawLines text) of
        (_, True) \<Rightarrow> Inl ErrTooLong
      | (_, False) \<Rightarrow> Inr [])"

definition exLib :: Lib where
  "exLib = \<lparr>Lib_ParseSet = exParseSet, Lib_Unmarshal = exUnmarshal,
     Lib_TrimSpace = (\<lambda>s. s)\<rparr>"

text \<open>
  A report of one line that just fits a scanner's buffer, one byte less than
  \<^verbatim>\<open>MaxScanTokenSize\<close>.
\<close>

definition exLongText :: string where
  "exLongText = replicate (MaxScanTokenSize - 1) (CHR ''x'')"

text \<open>
  The order in which a \<^verbatim>\<open>range\<close> statement visits a Go map is not fixed and differs
  from run to run. Two values of the model are one and the same \<^verbatim>\<open>Set\<close>, visited in two
  orders, when they have the same file and environment and list the same entries, each
  under keys that do not repeat.
\<close>

definition sameGoSet :: "ParserSet \<Rightarrow> ParserSet \<Rightarrow> bool" where
  "sameGoSet s s' =
     (Set_File s = Set_File s' \<and> Set_Environment s = Set_Environment s'
      \<and> distinct (map fst (Set_Set s)) \<and> distinct (map fst (Set_Set s'))
      \<and> set (Set_Set s) = set (Set_Set s'))"

text \<open>The records \<^verbatim>\<open>parseBenchmarks\<close> appends for one entry of a \<^verbatim>\<open>Set\<close>.\<close>

definition recordsOfEntry :: "Config \<Rightarrow> ParserSet \<Rightarrow> string \<times> Benchmark list \<Rightarrow> ParsedBenchmark list" where
  "recordsOfEntry cfg s entry =
     concat (map (recordsOfBench cfg (Set_File s) (Set_Environment s)) (snd entry))"

text \<open>
  A report is unambiguous for a configuration when no two of its entries, that is no two
  benchmark names, give records with the same function, version and context.
\<close>

definition unambiguous :: "Config \<Rightarrow> ParserSet \<Rightarrow> bool" where
  "unambiguous cfg s =
     (\<forall>e1 \<in> set (Set_Set s). \<forall>e2 \<in> set (Set_Set s).
        \<forall>b1 \<in> set (recordsOfEntry cfg s e1). \<forall>b2 \<in> set (recordsOfEntry cfg s e2).
          ParsedBenchmark_Function b1 = ParsedBenchmark_Function b2
          \<and> ParsedBenchmark_Version b1 = ParsedBenchmark_Version b2
          \<and> ParsedBenchmark_Context b1 = ParsedBenchmark_Context b2
          \<longrightarrow> e1 = e2)"

text \<open>
  Scenario A with a file rule that gives both the version \<^verbatim>\<open>generic\<close> and the context
  \<^verbatim>\<open>int\<close> to the reports whose path contains \<^verbatim>\<open>baseline\<close>, and three measurements: the
  names of the first two resolve neither a version nor a context, so that in a report
  read from \<^verbatim>\<open>baseline.txt\<close> both are classified by the file rule, to the same function,
  version and context; the name of the third resolves its version.
\<close>

definition exFileVersion :: Version where
  "exFileVersion = \<lparr>Object_ID = ''generic'', Object_Title = ''Generic'',
     Object_Match = ''baseline'', Object_NotMatch = '''',
     Object_match = Some (sublist ''baseline''), Object_notMatch = None\<rparr>"

definition exRule :: File where
  "exRule = \<lparr>File_ID = ''baseline'', File_MatchFile = ''baseline'',
     File_Contexts = [exFileContext], File_Versions = [exFileVersion],
     File_match = Some (sublist ''baseline'')\<rparr>"

definition exConfigRule :: Config where
  "exConfigRule = exConfig\<lparr>Config_Files := [exRule]\<rparr>"

definition exBenchA :: Benchmark where
  "exBenchA = \<lparr>Benchmark_Name = ''BenchmarkEqual/a'', Benchmark_N = 1000,
     Benchmark_NsPerOp = 1, Benchmark_AllocedBytesPerOp = 0, Benchmark_AllocsPerOp = 0,
     Benchmark_MBPerS = 0\<rparr>"

definition exBenchB :: Benchmark where
  "exBenchB = \<lparr>Benchmark_Name = ''BenchmarkEqual/b'', Benchmark_N = 1000,
     Benchmark_NsPerOp = 2, Benchmark_AllocedBytesPerOp = 0, Benchmark_AllocsPerOp = 0,
     Benchmark_MBPerS = 0\<rparr>"

definition exBenchG :: Benchmark where
  "exBenchG = \<lparr>Benchmark_Name = ''BenchmarkEqual_generic'', Benchmark_N = 1000,
     Benchmark_NsPerOp = 3, Benchmark_AllocedBytesPerOp = 0, Benchmark_AllocsPerOp = 0,
     Benchmark_MBPerS = 0\<rparr>"

definition exSetOf :: "(string \<times> Benchmark list) list \<Rightarrow> ParserSet" where
  "exSetOf entries = \<lparr>Set_Set = entries, Set_File = ''baseline.txt'',
     Set_Environment = ''unknown environment''\<rparr>"

text \<open>
  A report of two benchmark lines and its two events. The library functions are those of
  this report: the decoder reads the two event lines, where \<^verbatim>\<open>\n\<close> stands for the
  newline that ends each payload, and the benchmark parser finds the two measurements of
  the report.
\<close>

definition exReportLineA :: string where
  "exReportLineA = ''BenchmarkEqual/a 1000 1 ns/op''"

definition exReportLineG :: string where
  "exReportLineG = ''BenchmarkEqual_generic 1000 3 ns/op''"

definition exReport :: string where
  "exReport = exReportLineA @ [newline] @ exReportLineG @ [newline]"

definition exReportEntries :: "(string \<times> Benchmark list) list" where
  "exReportEntries = [(''BenchmarkEqual/a'', [exBenchA]), (''BenchmarkEqual_generic'', [exBenchG])]"

definition exEventOf :: "string \<Rightarrow> testEvent" where
  "exEventOf payload =
     \<lparr>testEvent_Time = '''', testEvent_Action = ''output'', testEvent_Package = '''',
      testEvent_Test = '''', testEvent_Output = payload, testEvent_Elapsed = 0\<rparr>"

definition exEventLine :: "string \<Rightarrow> string" where
  "exEventLine reportLine = exLinePrefix @ reportLine @ [CHR 0x5C, CHR ''n''] @ exLineSuffix"

definition exReportUnmarshal :: "string \<Rightarrow> testEvent option" where
  "exReportUnmarshal line =
     (if line = exEventLine exReportLineA then Some (exEventOf (exReportLineA @ [newline]))
      else if line = exEventLine exReportLineG then Some (exEventOf (exReportLineG @ [newline]))
      else None)"

definition exReportParseSet :: "string \<Rightarrow> error + ParseSet" where
  "exReportParseSet text = (if text = exReport then Inr exReportEntries else exParseSet text)"

definition exReportLib :: Lib where
  "exReportLib = \<lparr>Lib_ParseSet = exReportParseSet, Lib_Unmarshal = exReportUnmarshal,
     Lib_TrimSpace = (\<lambda>s. s)\<rparr>"

section \<open>Properties\<close>

subsection \<open>Matching and scanning\<close>

lemma scanObjects_find:
  "scanObjects defs name =
     (case find (\<lambda>d. snd (Object_MatchString d name)) defs of
        None \<Rightarrow> ('''', False) | Some d \<Rightarrow> (Object_ID d, True))"
  by (induction defs)
     (auto simp: Object_MatchString_def Let_def split: option.splits prod.splits bool.splits)

lemma find_append_case:
  "find P (xs @ ys) = (case find P xs of None \<Rightarrow> find P ys | Some x \<Rightarrow> Some x)"
  by (induction xs) auto

lemma File_MatchString_fileRuleMatches:
  "File_MatchString rule file
     = (if fileRuleMatches rule file then (File_ID rule, True) else ('''', False))"
  by (simp add: File_MatchString_def fileRuleMatches_def split: option.splits)

lemma Object_MatchString_entryMatches:
  "Object_MatchString entry s
     = (if entryMatches entry s then (Object_ID entry, True) else ('''', False))"
  by (simp add: Object_MatchString_def entryMatches_def Let_def split: option.splits)

lemma scanObjects_find_entryMatches:
  "scanObjects defs name =
     (case find (\<lambda>d. entryMatches d name) defs of
        None \<Rightarrow> ('''', False) | Some d \<Rightarrow> (Object_ID d, True))"
  by (induction defs) (simp_all add: Object_MatchString_entryMatches)

lemma scanFiles_firstFileMatch: "scanFiles nested files file = firstFileMatch nested files file"
proof (induction files)
  case Nil
  show ?case by (simp add: firstFileMatch_def)
next
  case (Cons d defs)
  let ?P = "\<lambda>(rule, entry). fileRuleMatches rule file \<and> entryMatches entry file"
  have none: "find ?P (map (Pair d) es) = None" if "\<not> fileRuleMatches d file" for es
    using that by (induction es) auto
  have some: "find ?P (map (Pair d) es)
                = map_option (Pair d) (find (\<lambda>e. entryMatches e file) es)"
    if "fileRuleMatches d file" for es
    using that by (induction es) auto
  show ?case
  proof (cases "fileRuleMatches d file")
    case False
    with Cons none show ?thesis
      by (simp add: firstFileMatch_def find_append_case File_MatchString_fileRuleMatches)
  next
    case True
    with Cons some [OF True] show ?thesis
      by (auto simp: firstFileMatch_def find_append_case scanObjects_find_entryMatches
            File_MatchString_fileRuleMatches split: option.splits)
  qed
qed

lemma ex_name_facts:
  "prefix ''BenchmarkEqual'' ''BenchmarkEqual_generic/int-8''"
  "\<not> suffix ''_generic'' ''BenchmarkEqual_generic/int-8''"
  "sublist ''/int-'' ''BenchmarkEqual_generic/int-8''"
  by code_simp+

text \<open>
  Claim C3. An entry with an inclusion pattern matches a subject exactly when the
  subject satisfies the inclusion and, if there is an exclusion pattern too, does not
  satisfy the exclusion; an entry with only an exclusion pattern matches exactly when the
  subject does not satisfy it; an entry with neither pattern matches nothing. A match
  returns the entry's identifier, a failure the empty string.
\<close>

theorem Object_MatchString_rule:
  "snd (Object_MatchString obj s) =
     (case (Object_match obj, Object_notMatch obj) of
        (Some r, Some n) \<Rightarrow> r s \<and> \<not> n s
      | (Some r, None) \<Rightarrow> r s
      | (None, Some n) \<Rightarrow> \<not> n s
      | (None, None) \<Rightarrow> False)
   \<and> fst (Object_MatchString obj s)
       = (if snd (Object_MatchString obj s) then Object_ID obj else '''')"
  by (simp add: Object_MatchString_def Let_def split: option.splits)

text \<open>
  Claim C9. A file rule matches a source path exactly when its compiled file-path
  pattern is there and the path satisfies it, and then \<^verbatim>\<open>File.MatchString\<close> returns the
  rule's identifier; a nested entry is matched by \<^verbatim>\<open>Object.MatchString\<close> under the rule of
  the matcher. The file-rule fallback for versions, and the one for contexts, return the
  identifier of the first nested entry, in declaration order of rules and of entries
  within a rule, such that the rule's file-path pattern matches the source path and the
  entry matches that same source path; they report no match when there is no such pair.
  The benchmark name is not an argument of either function.
\<close>

theorem file_fallback_matches_source_path:
  "FindVersionFromFile c file = firstFileMatch File_Versions (Config_Files c) file
   \<and> FindContextFromFile c file = firstFileMatch File_Contexts (Config_Files c) file
   \<and> File_MatchString rule file
       = (if fileRuleMatches rule file then (File_ID rule, True) else ('''', False))
   \<and> Object_MatchString entry file
       = (if entryMatches entry file then (Object_ID entry, True) else ('''', False))"
  by (simp add: FindVersionFromFile_def FindContextFromFile_def scanFiles_firstFileMatch
        File_MatchString_fileRuleMatches [symmetric] Object_MatchString_entryMatches [symmetric])

text \<open>
  Claim C2. On the catalog of scenario A and the name \<^verbatim>\<open>BenchmarkEqual_generic/int-8\<close>,
  the context catalog has a matching entry, \<^verbatim>\<open>int\<close>, and yet \<^verbatim>\<open>FindContext\<close> reports no
  match: it scans the version catalog, and so returns what \<^verbatim>\<open>FindVersion\<close> returns, on
  every configuration and name.
\<close>

theorem FindContext_reads_version_catalog:
  "FindContext exConfig ''BenchmarkEqual_generic/int-8'' = ('''', False)
   \<and> scanObjects (Config_Contexts exConfig) ''BenchmarkEqual_generic/int-8'' = (''int'', True)
   \<and> FindContext c name = FindVersion c name"
  by (simp add: FindContext_def FindVersion_def exConfig_def exVersion_def exContext_def
        Object_MatchString_def ex_name_facts)

subsection \<open>Ingesting measurements\<close>

lemma float64_exact [simp]: "n < 2 ^ 53 \<Longrightarrow> float64 n = real n"
  by (simp add: float64_def)

lemma float64_rounds: "float64 (2 ^ 53 + 1) = 2 ^ 53" "float64 (2 ^ 53 + 3) = 2 ^ 53 + 4"
  by (simp_all add: float64_def Let_def bitLength.simps)

lemma addMetric_eq:
  "addMetric cfg m v (bs, p, r) =
     (if snd (GetMetric cfg m)
      then (bs @ [p\<lparr>ParsedBenchmark_Metric := Metric_ID (fst (GetMetric cfg m)),
                     ParsedBenchmark_Name := Metric_Title (fst (GetMetric cfg m)),
                     ParsedBenchmark_Value := v\<rparr>],
            p\<lparr>ParsedBenchmark_Metric := Metric_ID (fst (GetMetric cfg m)),
              ParsedBenchmark_Name := Metric_Title (fst (GetMetric cfg m)),
              ParsedBenchmark_Value := v\<rparr>, True)
      else (bs, p, r))"
  by (simp add: addMetric_def Let_def split: prod.splits bool.splits)

lemma ingest_append:
  "ingest cfg file env bench (bs, l)
     = (bs @ fst (ingest cfg file env bench ([], [])), l @ snd (ingest cfg file env bench ([], [])))"
proof (cases "parseBenchmarkName cfg (Benchmark_Name bench) file env")
  case (Pair pr w)
  obtain parsed ok where pr: "pr = (parsed, ok)" by (cases pr)
  show ?thesis
    by (cases ok) (simp_all add: ingest_def Pair pr addMetric_eq)
qed

lemma fold_ingest:
  "fold (ingest cfg file env) benchs (bs, l)
     = (bs @ concat (map (recordsOfBench cfg file env) benchs),
        l @ concat (map (\<lambda>b. snd (ingest cfg file env b ([], []))) benchs))"
proof (induction benchs arbitrary: bs l)
  case Nil
  show ?case by simp
next
  case (Cons b benchs)
  show ?case
    by (subst fold_simps, subst ingest_append, subst Cons.IH) (simp add: recordsOfBench_def)
qed

lemma fold_entries:
  "fold (\<lambda>(_, benchs). fold (ingest cfg file env) benchs) entries (bs, l)
     = (bs @ concat (map (\<lambda>(_, benchs). concat (map (recordsOfBench cfg file env) benchs)) entries),
        l @ concat (map (\<lambda>(_, benchs). concat (map (\<lambda>b. snd (ingest cfg file env b ([], []))) benchs))
                      entries))"
proof (induction entries arbitrary: bs l)
  case Nil
  show ?case by simp
next
  case (Cons e entries)
  obtain k benchs where e: "e = (k, benchs)" by (cases e)
  show ?case
    by (simp add: e fold_ingest Cons.IH)
qed

lemma fold_sets_fst:
  "fst (fold (\<lambda>s. fold (\<lambda>(_, benchs). fold (ingest cfg (Set_File s) (Set_Environment s)) benchs)
                      (Set_Set s)) sets (bs, l))
     = bs @ concat (map (recordsOfSet cfg) sets)"
proof (induction sets arbitrary: bs l)
  case Nil
  show ?case by simp
next
  case (Cons s sets)
  show ?case
    by (simp add: fold_entries Cons.IH recordsOfSet_def)
qed

lemma parseBenchmarks_records:
  "fst (parseBenchmarks cfg sets) = concat (map (recordsOfSet cfg) sets)"
  using fold_sets_fst [of cfg sets "[]" "[]"]
  by (auto simp: parseBenchmarks_def split: prod.splits)

lemma parseBenchmarkName_environment:
  "parseBenchmarkName cfg name file env = ((parsed, True), l) \<Longrightarrow>
     ParsedBenchmark_Environment parsed = defaultString (Config_Environment cfg) env"
  by (auto simp: parseBenchmarkName_def Let_def split: prod.splits bool.splits)

lemma recordsOfBench_fields:
  assumes "b \<in> set (recordsOfBench cfg file env bench)"
  shows "\<exists>parsed l. parseBenchmarkName cfg (Benchmark_Name bench) file env = ((parsed, True), l)
           \<and> ParsedBenchmark_Function b = ParsedBenchmark_Function parsed
           \<and> ParsedBenchmark_Version b = ParsedBenchmark_Version parsed
           \<and> ParsedBenchmark_Context b = ParsedBenchmark_Context parsed
           \<and> ParsedBenchmark_Environment b = ParsedBenchmark_Environment parsed"
proof (cases "parseBenchmarkName cfg (Benchmark_Name bench) file env")
  case (Pair pr l)
  obtain parsed ok where pr: "pr = (parsed, ok)" by (cases pr)
  show ?thesis
  proof (cases ok)
    case False
    with assms Pair pr show ?thesis by (simp add: recordsOfBench_def ingest_def)
  next
    case True
    with assms Pair pr show ?thesis
      by (auto simp: recordsOfBench_def ingest_def addMetric_eq split: if_splits)
  qed
qed

text \<open>
  Claim C10. The records of a run are those of its parsed reports, report after report;
  every record made from a report carries the configuration's environment when that is
  not empty, and the environment of that report's \<^verbatim>\<open>Set\<close> only when the configuration's
  is the empty string. The environment of a \<^verbatim>\<open>Set\<close> is the one \<^verbatim>\<open>extractEnvironment\<close>
  finds in the text of the report, whenever the report is parsed without error.
\<close>

theorem record_environment:
  "fst (parseBenchmarks cfg sets) = concat (map (recordsOfSet cfg) sets)
   \<and> (\<forall>b \<in> set (recordsOfSet cfg s).
         ParsedBenchmark_Environment b
           = (if Config_Environment cfg = '''' then Set_Environment s else Config_Environment cfg))
   \<and> Set_Environment (fst (parseText lib (Reader content None)))
       = (case Lib_ParseSet lib content of
            Inl err \<Rightarrow> '''' | Inr parsed \<Rightarrow> extractEnvironment lib content)"
proof (intro conjI)
  show "Set_Environment (fst (parseText lib (Reader content None)))
       = (case Lib_ParseSet lib content of
            Inl err \<Rightarrow> '''' | Inr parsed \<Rightarrow> extractEnvironment lib content)"
    by (simp add: parseText_def ReadAll_def zeroSet_def Let_def split: sum.splits)
next
  show "fst (parseBenchmarks cfg sets) = concat (map (recordsOfSet cfg) sets)"
    by (rule parseBenchmarks_records)
next
  show "\<forall>b \<in> set (recordsOfSet cfg s).
         ParsedBenchmark_Environment b
           = (if Config_Environment cfg = '''' then Set_Environment s else Config_Environment cfg)"
  proof
    fix b assume "b \<in> set (recordsOfSet cfg s)"
    then obtain bench where "b \<in> set (recordsOfBench cfg (Set_File s) (Set_Environment s) bench)"
      by (auto simp: recordsOfSet_def)
    from recordsOfBench_fields [OF this] parseBenchmarkName_environment
    show "ParsedBenchmark_Environment b
           = (if Config_Environment cfg = '''' then Set_Environment s else Config_Environment cfg)"
      by (fastforce simp: defaultString_def)
  qed
qed

lemma ex_metrics:
  "GetMetric exConfig MetricNsPerOp = (exMetric, True)"
  "GetMetric exConfig MetricAllocsPerOp = (zeroMetric, False)"
  "GetMetric exConfig MetricBytesPerOp = (zeroMetric, False)"
  "GetMetric exConfig MetricMBPerS = (zeroMetric, False)"
  by (simp_all add: GetMetric_def exConfig_def MetricNsPerOp_def MetricAllocsPerOp_def
        MetricBytesPerOp_def MetricMBPerS_def)

lemma ex_parseBenchmarkName:
  "parseBenchmarkName (exConfig\<lparr>Config_Environment := e\<rparr>) ''BenchmarkEqual_generic/int-8'' file env
     = ((\<lparr>ParsedBenchmark_Function = ''equal'', ParsedBenchmark_Version = '''',
           ParsedBenchmark_Context = '''', ParsedBenchmark_Metric = '''',
           ParsedBenchmark_Name = '''', ParsedBenchmark_Value = 0,
           ParsedBenchmark_Environment = defaultString e env\<rparr>, True),
        [Warn ''no version, no context matched for %q''
           [(''!BADKEY'', ''BenchmarkEqual_generic/int-8'')]])"
  by (simp add: parseBenchmarkName_def FindFunction_def FindVersion_def FindContext_def
        FindVersionFromFile_def FindContextFromFile_def exConfig_def exFunction_def exVersion_def
        Object_MatchString_def ex_name_facts)

lemma ex_recordsOfSet:
  "recordsOfSet (exConfig\<lparr>Config_Environment := e\<rparr>) exSet
     = [\<lparr>ParsedBenchmark_Function = ''equal'', ParsedBenchmark_Version = '''',
          ParsedBenchmark_Context = '''', ParsedBenchmark_Metric = MetricNsPerOp,
          ParsedBenchmark_Name = ''Ns Per Op'', ParsedBenchmark_Value = 12.3,
          ParsedBenchmark_Environment = defaultString e ''linux amd64''\<rparr>]"
proof -
  have m: "GetMetric (exConfig\<lparr>Config_Environment := e\<rparr>) = GetMetric exConfig"
    by (simp add: GetMetric_def fun_eq_iff)
  show ?thesis
    by (simp add: recordsOfSet_def recordsOfBench_def ingest_def exSet_def exBench_def
          ex_parseBenchmarkName addMetric_eq m ex_metrics exMetric_def)
qed

theorem record_environment_witness:
  "ParsedBenchmark_Environment (hd (recordsOfSet exConfig exSet)) = ''linux amd64''
   \<and> ParsedBenchmark_Environment (hd (recordsOfSet (exConfig\<lparr>Config_Environment := ''ci''\<rparr>) exSet))
       = ''ci''"
proof -
  have a: "exConfig\<lparr>Config_Environment := ''''\<rparr> = exConfig"
    by (simp add: exConfig_def)
  have m1: "hd (recordsOfSet exConfig exSet) \<in> set (recordsOfSet exConfig exSet)"
    using ex_recordsOfSet [of "''''"] by (simp add: a)
  have m2: "hd (recordsOfSet (exConfig\<lparr>Config_Environment := ''ci''\<rparr>) exSet)
              \<in> set (recordsOfSet (exConfig\<lparr>Config_Environment := ''ci''\<rparr>) exSet)"
    using ex_recordsOfSet [of "''ci''"] by simp
  have e: "Config_Environment exConfig = ''''" by (simp add: exConfig_def)
  from record_environment [of exConfig "[exSet]" exSet] m1
    record_environment [of "exConfig\<lparr>Config_Environment := ''ci''\<rparr>" "[exSet]" exSet] m2
  show ?thesis
    by (simp add: e exSet_def)
qed

subsection \<open>The categories of a scenario\<close>

lemma fold_snoc_map: "fold (\<lambda>x acc. acc @ [f x]) xs init = init @ map f xs"
  by (induction xs arbitrary: init) simp_all

lemma categoryData_concat:
  "categoryData cfg recs categoryConfig
     = concat (map (\<lambda>metricID.
                      map (\<lambda>versionID.
                             \<lparr>CategoryData_Version = fst (GetVersion cfg versionID),
                              CategoryData_Metric = fst (GetMetric cfg metricID),
                              CategoryData_Series =
                                SeriesFor recs (Metric_ID (fst (GetMetric cfg metricID)))
                                  (Object_ID (fst (GetVersion cfg versionID))) categoryConfig\<rparr>)
                        (Includes_Versions (Category_Includes categoryConfig)))
                 (Includes_Metrics (Category_Includes categoryConfig)))"
proof -
  have outer: "fold (\<lambda>m data. data @ g m) ms init = init @ concat (map g ms)"
    for g :: "MetricName \<Rightarrow> CategoryData list" and ms init
    by (induction ms arbitrary: init) simp_all
  have inner: "fold (\<lambda>x acc. acc @ [f x]) xs = (\<lambda>init. init @ map f xs)"
    for f :: "string \<Rightarrow> CategoryData" and xs
    by (rule ext) (rule fold_snoc_map)
  show ?thesis
    by (simp add: categoryData_def Let_def inner outer)
qed

text \<open>
  Claim C1. The list of categories \<^verbatim>\<open>populateCategories\<close> returns starts with one
  zero-valued category per configured category, and the categories built from the
  configuration follow, in configuration order: twice as many entries as configured
  categories. Each category built from the configuration carries the configured
  identifier and title and one \<^verbatim>\<open>CategoryData\<close> per included metric and version, metric
  after metric.
\<close>

theorem populateCategories_prepends_zero_categories:
  "Scenario_Categories (populateCategories cfg recs)
     = replicate (length (Config_Categories cfg)) zeroModelCategory
       @ map (\<lambda>categoryConfig.
                \<lparr>ModelCategory_ID = Category_ID categoryConfig,
                 ModelCategory_Title = Category_Title categoryConfig,
                 ModelCategory_Environment = Config_Environment cfg,
                 ModelCategory_Data = categoryData cfg recs categoryConfig\<rparr>)
           (Config_Categories cfg)
   \<and> length (Scenario_Categories (populateCategories cfg recs)) = 2 * length (Config_Categories cfg)
   \<and> categoryData cfg recs categoryConfig
       = concat (map (\<lambda>metricID.
                        map (\<lambda>versionID.
                               \<lparr>CategoryData_Version = fst (GetVersion cfg versionID),
                                CategoryData_Metric = fst (GetMetric cfg metricID),
                                CategoryData_Series =
                                  SeriesFor recs (Metric_ID (fst (GetMetric cfg metricID)))
                                    (Object_ID (fst (GetVersion cfg versionID))) categoryConfig\<rparr>)
                          (Includes_Versions (Category_Includes categoryConfig)))
                   (Includes_Metrics (Category_Includes categoryConfig)))"
  using categoryData_concat [of cfg recs categoryConfig]
  by (simp add: populateCategories_def fold_snoc_map)

subsection \<open>The context fallback\<close>

lemma ex_file_facts:
  "prefix ''BenchmarkEqual'' ''BenchmarkEqual_generic''"
  "suffix ''_generic'' ''BenchmarkEqual_generic''"
  "\<not> sublist ''/int-'' ''BenchmarkEqual_generic''"
  "sublist ''baseline'' ''baseline.txt''"
  by code_simp+

text \<open>
  Claim C4. In scenario A with the file rule, for the name \<^verbatim>\<open>BenchmarkEqual_generic\<close>
  read from \<^verbatim>\<open>baseline.txt\<close>: no entry of the context catalog matches the name and the
  file rule gives the context \<^verbatim>\<open>int\<close>, and yet the record's context is \<^verbatim>\<open>generic\<close>,
  since the version was resolved by name.
\<close>

theorem context_fallback_follows_version_flag:
  "scanObjects (Config_Contexts exConfigFile) ''BenchmarkEqual_generic'' = ('''', False)
   \<and> FindContextFromFile exConfigFile ''baseline.txt'' = (''int'', True)
   \<and> ParsedBenchmark_Context
        (fst (fst (parseBenchmarkName exConfigFile ''BenchmarkEqual_generic'' ''baseline.txt'' '''')))
       = ''generic''"
  by (simp add: parseBenchmarkName_def FindFunction_def FindVersion_def FindContext_def
        FindVersionFromFile_def FindContextFromFile_def exConfigFile_def exConfig_def
        exFunction_def exVersion_def exContext_def exFile_def exFileContext_def
        Object_MatchString_def File_MatchString_def ex_file_facts)

subsection \<open>Scenario A\<close>

lemma Scenarize_fst:
  "fst (Scenarize cfg sets) = populateCategories cfg (fst (parseBenchmarks cfg sets))"
  by (simp add: Scenarize_def split: prod.splits)

lemma ex_version: "GetVersion exConfig ''generic'' = (exIndexed exVersion, True)"
  by (simp add: GetVersion_def exConfig_def)

lemma ex_ids:
  "Metric_ID exMetric = MetricNsPerOp" "Object_ID (exIndexed exVersion) = ''generic''"
  by (simp_all add: exMetric_def exVersion_def exIndexed_def)

lemma ex_categoryData_record:
  "categoryData exConfig [exRecord v] exCategory
     = [\<lparr>CategoryData_Version = exIndexed exVersion, CategoryData_Metric = exMetric,
          CategoryData_Series =
            [\<lparr>MetricSeries_Title = ''generic'',
              MetricSeries_Points =
                [\<lparr>MetricPoint_Name = ''equal - generic - int'', MetricPoint_Value = v\<rparr>]\<rparr>]\<rparr>]"
  by (simp add: categoryData_def exCategory_def ex_metrics ex_version ex_ids Let_def
        SeriesFor_def seriesLoop_def seriesStep_def exRecord_def pointOf_def)

text \<open>
  Claim C7, as amended. From the classified record of scenario A (function \<^verbatim>\<open>equal\<close>,
  version \<^verbatim>\<open>generic\<close>, context \<^verbatim>\<open>int\<close>, metric \<^verbatim>\<open>nsPerOp\<close>, value 12.3) the category
  gets one \<^verbatim>\<open>CategoryData\<close>, for the metric \<^verbatim>\<open>nsPerOp\<close> and the version \<^verbatim>\<open>generic\<close>, with
  one series, titled by the version, that holds one point: its label is
  \<^verbatim>\<open>equal - generic - int\<close>, the three identifiers joined by a hyphen-minus between
  spaces, and its value is 12.3 unchanged.
\<close>

theorem scenario_A_from_classified_record:
  "categoryData exConfig [exRecord 12.3] exCategory
     = [\<lparr>CategoryData_Version = exIndexed exVersion, CategoryData_Metric = exMetric,
          CategoryData_Series =
            [\<lparr>MetricSeries_Title = ''generic'',
              MetricSeries_Points =
                [\<lparr>MetricPoint_Name = ''equal - generic - int'', MetricPoint_Value = 12.3\<rparr>]\<rparr>]\<rparr>]
   \<and> Metric_ID exMetric = MetricNsPerOp \<and> Object_ID (exIndexed exVersion) = ''generic''"
  by (simp add: ex_categoryData_record ex_ids)

text \<open>
  Claim C7, as stated, fails. The measurement \<^verbatim>\<open>BenchmarkEqual_generic/int-8\<close> is
  classified with an empty version, the pattern \<^verbatim>\<open>_generic$\<close> not matching a name that
  ends in \<^verbatim>\<open>/int-8\<close>, and with an empty context, and the scenario built from it has no
  point at all.
\<close>

theorem scenario_A_yields_no_point:
  "fst (parseBenchmarks exConfig [exSet])
     = [\<lparr>ParsedBenchmark_Function = ''equal'', ParsedBenchmark_Version = '''',
          ParsedBenchmark_Context = '''', ParsedBenchmark_Metric = MetricNsPerOp,
          ParsedBenchmark_Name = ''Ns Per Op'', ParsedBenchmark_Value = 12.3,
          ParsedBenchmark_Environment = ''linux amd64''\<rparr>]
   \<and> scenarioPoints (fst (Scenarize exConfig [exSet])) = []"
proof -
  have a: "exConfig\<lparr>Config_Environment := ''''\<rparr> = exConfig"
    by (simp add: exConfig_def)
  have r: "fst (parseBenchmarks exConfig [exSet])
     = [\<lparr>ParsedBenchmark_Function = ''equal'', ParsedBenchmark_Version = '''',
          ParsedBenchmark_Context = '''', ParsedBenchmark_Metric = MetricNsPerOp,
          ParsedBenchmark_Name = ''Ns Per Op'', ParsedBenchmark_Value = 12.3,
          ParsedBenchmark_Environment = ''linux amd64''\<rparr>]"
    using ex_recordsOfSet [of "''''"]
    by (simp add: parseBenchmarks_records a defaultString_def)
  have c: "Config_Categories exConfig = [exCategory]"
    by (simp add: exConfig_def)
  have "scenarioPoints (populateCategories exConfig (fst (parseBenchmarks exConfig [exSet]))) = []"
    unfolding r
    by (simp add: scenarioPoints_def populateCategories_def c zeroModelCategory_def
          categoryData_def exCategory_def ex_metrics ex_version ex_ids Let_def
          SeriesFor_def seriesLoop_def seriesStep_def)
  with r show ?thesis
    by (simp only: Scenarize_fst simp_thms)
qed

subsection \<open>Unclassified and unresolved measurements\<close>
















subsection \<open>The series of one selection\<close>

lemma appendAt_Nil: "appendAt v f [] st = st"
  by (simp add: appendAt_def split: prod.splits)

lemma seriesStep_appendAt:
  "seriesStep m v f c b st = (if matchesKey m v f c b then appendAt v f [pointOf b] st else st)"
  by (auto simp: seriesStep_def appendAt_def matchesKey_def Let_def split: prod.splits option.splits)

lemma seriesInv_index_in_range:
  "seriesInv keys (series, indexSeries) \<Longrightarrow> indexSeries k = Some i \<Longrightarrow> i < length series"
  by (simp add: seriesInv_def)

lemma seriesInv_appendAt:
  assumes "seriesInv keys st"
  shows "seriesInv (if ps = [] \<or> f \<in> set keys then keys else keys @ [f]) (appendAt v f ps st)"
proof -
  obtain series indexSeries where st: "st = (series, indexSeries)" by (cases st)
  from assms st have d: "distinct keys" and l: "length keys = length series"
    and ix: "\<And>k i. (indexSeries k = Some i) = (i < length keys \<and> keys ! i = k)"
    by (simp_all add: seriesInv_def)
  show ?thesis
  proof (cases "ps = []")
    case True
    with assms show ?thesis by (simp add: appendAt_Nil)
  next
    case False
    show ?thesis
    proof (cases "indexSeries f")
      case (Some i)
      with ix have fk: "f \<in> set keys" by auto
      from False Some have "appendAt v f ps st
          = (series[i := (series ! i)\<lparr>MetricSeries_Points := MetricSeries_Points (series ! i) @ ps\<rparr>],
             indexSeries)"
        by (simp add: st appendAt_def)
      with False fk d l ix show ?thesis
        by (simp add: seriesInv_def)
    next
      case None
      have nf: "f \<notin> set keys"
      proof
        assume "f \<in> set keys"
        then obtain i where "i < length keys" "keys ! i = f" by (auto simp: in_set_conv_nth)
        with ix [of f i] None show False by simp
      qed
      have "(if k = f then Some (length series) else indexSeries k) = Some i
              \<longleftrightarrow> i < Suc (length keys) \<and> (keys @ [f]) ! i = k" for k i
      proof (cases "k = f")
        case True
        with nf l show ?thesis
          by (auto simp: nth_append less_Suc_eq)
      next
        case False
        with ix [of k i] show ?thesis
          by (auto simp: nth_append less_Suc_eq)
      qed
      moreover from \<open>ps \<noteq> []\<close> None have "appendAt v f ps st
          = (series @ [\<lparr>MetricSeries_Title = v, MetricSeries_Points = ps\<rparr>],
             indexSeries(f \<mapsto> length series))"
        by (simp add: st appendAt_def)
      ultimately show ?thesis
        using \<open>ps \<noteq> []\<close> nf d l by (simp add: seriesInv_def)
    qed
  qed
qed

lemma appendAt_appendAt:
  assumes "seriesInv keys st"
  shows "appendAt v f qs (appendAt v f ps st) = appendAt v f (ps @ qs) st"
proof -
  obtain series indexSeries where st: "st = (series, indexSeries)" by (cases st)
  show ?thesis
  proof (cases "indexSeries f")
    case None
    then show ?thesis
      by (simp add: st appendAt_def)
  next
    case (Some i)
    with assms st have "i < length series"
      by (auto dest: seriesInv_index_in_range)
    with Some show ?thesis
      by (simp add: st appendAt_def)
  qed
qed

lemma fold_records_appendAt:
  "seriesInv keys st \<Longrightarrow>
     fold (seriesStep m v f c) recs st
       = appendAt v f (map pointOf (filter (matchesKey m v f c) recs)) st"
proof (induction recs arbitrary: keys st)
  case Nil
  show ?case by (simp add: appendAt_Nil)
next
  case (Cons b recs)
  show ?case
  proof (cases "matchesKey m v f c b")
    case False
    then have "seriesStep m v f c b st = st" by (simp add: seriesStep_appendAt)
    with False Cons show ?thesis by simp
  next
    case True
    then have step: "seriesStep m v f c b st = appendAt v f [pointOf b] st"
      by (simp add: seriesStep_appendAt)
    have "fold (seriesStep m v f c) recs (appendAt v f [pointOf b] st)
            = appendAt v f (map pointOf (filter (matchesKey m v f c) recs))
                (appendAt v f [pointOf b] st)"
      by (rule Cons.IH [OF seriesInv_appendAt [OF Cons.prems]])
    with True Cons.prems step show ?thesis
      by (simp add: appendAt_appendAt)
  qed
qed

lemma fold_contexts_appendAt:
  "seriesInv keys st \<Longrightarrow>
     fold (\<lambda>c. fold (seriesStep m v f c) recs) cs st = appendAt v f (pointsFor recs m v cs f) st"
proof (induction cs arbitrary: keys st)
  case Nil
  show ?case by (simp add: pointsFor_def appendAt_Nil)
next
  case (Cons c cs)
  let ?ps = "map pointOf (filter (matchesKey m v f c) recs)"
  have "fold (\<lambda>c. fold (seriesStep m v f c) recs) cs (appendAt v f ?ps st)
          = appendAt v f (pointsFor recs m v cs f) (appendAt v f ?ps st)"
    by (rule Cons.IH [OF seriesInv_appendAt [OF Cons.prems]])
  with Cons.prems show ?case
    by (simp add: fold_records_appendAt appendAt_appendAt pointsFor_def)
qed

lemma seriesLoop_appendAt:
  "seriesInv keys st \<Longrightarrow>
     seriesLoop recs m v fs cs st = fold (\<lambda>f. appendAt v f (pointsFor recs m v cs f)) fs st"
proof (induction fs arbitrary: keys st)
  case Nil
  show ?case by (simp add: seriesLoop_def)
next
  case (Cons f fs)
  have "seriesLoop recs m v fs cs (appendAt v f (pointsFor recs m v cs f) st)
          = fold (\<lambda>f. appendAt v f (pointsFor recs m v cs f)) fs
              (appendAt v f (pointsFor recs m v cs f) st)"
    by (rule Cons.IH [OF seriesInv_appendAt [OF Cons.prems]])
  with Cons.prems show ?case
    by (simp add: seriesLoop_def fold_contexts_appendAt)
qed

lemma seriesLoop_inv:
  "seriesInv keys st \<Longrightarrow> \<exists>keys'. seriesInv keys' (seriesLoop recs m v fs cs st)"
proof -
  have "\<exists>keys'. seriesInv keys' (fold (\<lambda>f. appendAt v f (P f)) fs st)" if "seriesInv keys st" for P
    using that
  proof (induction fs arbitrary: keys st)
    case Nil
    then show ?case by auto
  next
    case (Cons f fs)
    from Cons.IH [OF seriesInv_appendAt [OF Cons.prems]] show ?case by simp
  qed
  then show "seriesInv keys st \<Longrightarrow> \<exists>keys'. seriesInv keys' (seriesLoop recs m v fs cs st)"
    by (simp add: seriesLoop_appendAt)
qed

lemma set_firstOccurrences: "set (firstOccurrences xs) = set xs"
  by (induction xs) auto

lemma distinct_firstOccurrences: "distinct (firstOccurrences xs)"
  by (induction xs) (auto simp: set_firstOccurrences)

lemma filter_firstOccurrences: "filter R (firstOccurrences xs) = firstOccurrences (filter R xs)"
proof (induction xs)
  case Nil
  show ?case by simp
next
  case (Cons x xs)
  show ?case
  proof (cases "R x")
    case True
    have "filter R (filter (\<lambda>y. y \<noteq> x) (firstOccurrences xs))
            = filter (\<lambda>y. y \<noteq> x) (filter R (firstOccurrences xs))"
      by (simp add: conj_commute)
    with True Cons show ?thesis by simp
  next
    case False
    have "filter (\<lambda>y. y \<noteq> x) (firstOccurrences (filter R xs)) = firstOccurrences (filter R xs)"
      using False by (intro filter_True) (auto simp: set_firstOccurrences)
    moreover have "filter R (filter (\<lambda>y. y \<noteq> x) (firstOccurrences xs))
            = filter (\<lambda>y. y \<noteq> x) (filter R (firstOccurrences xs))"
      by (simp add: conj_commute)
    ultimately show ?thesis using False Cons by simp
  qed
qed

lemma length_firstOccurrences: "length (firstOccurrences xs) = card (set xs)"
  using distinct_card [OF distinct_firstOccurrences, of xs]
  by (simp add: set_firstOccurrences)

lemma fold_appendAt_closed_form:
  assumes "seriesInv keys (series, indexSeries)"
  shows "fst (fold (\<lambda>f. appendAt v f (P f)) fs (series, indexSeries))
           = map (\<lambda>(k, s). s\<lparr>MetricSeries_Points :=
                              MetricSeries_Points s @ concat (map P (filter (\<lambda>g. g = k) fs))\<rparr>)
               (zip keys series)
             @ map (\<lambda>f. \<lparr>MetricSeries_Title = v,
                         MetricSeries_Points = concat (map P (filter (\<lambda>g. g = f) fs))\<rparr>)
                 (firstOccurrences (filter (\<lambda>f. P f \<noteq> [] \<and> f \<notin> set keys) fs))"
  using assms
proof (induction fs arbitrary: keys series indexSeries)
  case Nil
  then have "length keys = length series" by (simp add: seriesInv_def)
  then have "map (\<lambda>(k, s). s) (zip keys series) = series"
    by (simp add: split_def)
  then show ?case by simp
next
  case (Cons x fs)
  let ?E = "\<lambda>fs k. concat (map P (filter (\<lambda>g. g = k) fs))"
  from Cons.prems have d: "distinct keys" and l: "length keys = length series"
    and ix: "\<And>k i. (indexSeries k = Some i) = (i < length keys \<and> keys ! i = k)"
    by (simp_all add: seriesInv_def)
  show ?case
  proof (cases "P x = []")
    case True
    then have "appendAt v x (P x) (series, indexSeries) = (series, indexSeries)"
      by (simp add: appendAt_Nil)
    moreover have "?E (x # fs) k = ?E fs k" for k
      using True by auto
    ultimately show ?thesis
      using True Cons.IH [OF Cons.prems] by simp
  next
    case False
    show ?thesis
    proof (cases "indexSeries x")
      case (Some i)
      with ix have i: "i < length keys" "keys ! i = x" by auto
      then have xk: "x \<in> set keys" by auto
      let ?s' = "(series ! i)\<lparr>MetricSeries_Points := MetricSeries_Points (series ! i) @ P x\<rparr>"
      have step: "appendAt v x (P x) (series, indexSeries) = (series[i := ?s'], indexSeries)"
        using False Some by (simp add: appendAt_def)
      have inv': "seriesInv keys (series[i := ?s'], indexSeries)"
        using seriesInv_appendAt [OF Cons.prems, of "P x" x v] False xk step by simp
      have old: "map (\<lambda>(k, s). s\<lparr>MetricSeries_Points := MetricSeries_Points s @ ?E fs k\<rparr>)
                   (zip keys (series[i := ?s']))
                 = map (\<lambda>(k, s). s\<lparr>MetricSeries_Points := MetricSeries_Points s @ ?E (x # fs) k\<rparr>)
                     (zip keys series)"
      proof (rule nth_equalityI)
        show "length (map (\<lambda>(k, s). s\<lparr>MetricSeries_Points := MetricSeries_Points s @ ?E fs k\<rparr>)
                   (zip keys (series[i := ?s'])))
              = length (map (\<lambda>(k, s). s\<lparr>MetricSeries_Points := MetricSeries_Points s @ ?E (x # fs) k\<rparr>)
                     (zip keys series))"
          by simp
      next
        fix j
        assume "j < length (map (\<lambda>(k, s). s\<lparr>MetricSeries_Points := MetricSeries_Points s @ ?E fs k\<rparr>)
                   (zip keys (series[i := ?s'])))"
        then have j: "j < length keys" "j < length series" using l by simp_all
        show "map (\<lambda>(k, s). s\<lparr>MetricSeries_Points := MetricSeries_Points s @ ?E fs k\<rparr>)
                   (zip keys (series[i := ?s'])) ! j
              = map (\<lambda>(k, s). s\<lparr>MetricSeries_Points := MetricSeries_Points s @ ?E (x # fs) k\<rparr>)
                     (zip keys series) ! j"
        proof (cases "j = i")
          case True
          with j i show ?thesis by simp
        next
          case False
          with d j i have "keys ! j \<noteq> x"
            by (auto simp: nth_eq_iff_index_eq)
          with False j show ?thesis by simp
        qed
      qed
      have new: "map (\<lambda>f. \<lparr>MetricSeries_Title = v, MetricSeries_Points = ?E fs f\<rparr>)
                   (firstOccurrences (filter (\<lambda>f. P f \<noteq> [] \<and> f \<notin> set keys) fs))
                 = map (\<lambda>f. \<lparr>MetricSeries_Title = v, MetricSeries_Points = ?E (x # fs) f\<rparr>)
                     (firstOccurrences (filter (\<lambda>f. P f \<noteq> [] \<and> f \<notin> set keys) fs))"
        using xk by (intro map_cong refl) (auto simp: set_firstOccurrences)
      show ?thesis
        using xk Cons.IH [OF inv'] by (simp add: step old new del: filter.simps) (simp add: xk)
    next
      case None
      have nx: "x \<notin> set keys"
      proof
        assume "x \<in> set keys"
        then obtain i where "i < length keys" "keys ! i = x" by (auto simp: in_set_conv_nth)
        with ix [of x i] None show False by simp
      qed
      let ?s' = "\<lparr>MetricSeries_Title = v, MetricSeries_Points = P x\<rparr>"
      have step: "appendAt v x (P x) (series, indexSeries)
                    = (series @ [?s'], indexSeries(x \<mapsto> length series))"
        using False None by (simp add: appendAt_def)
      have inv': "seriesInv (keys @ [x]) (series @ [?s'], indexSeries(x \<mapsto> length series))"
        using seriesInv_appendAt [OF Cons.prems, of "P x" x v] False nx step by simp
      have old: "map (\<lambda>(k, s). s\<lparr>MetricSeries_Points := MetricSeries_Points s @ ?E fs k\<rparr>)
                   (zip keys series)
                 = map (\<lambda>(k, s). s\<lparr>MetricSeries_Points := MetricSeries_Points s @ ?E (x # fs) k\<rparr>)
                     (zip keys series)"
        using nx by (intro map_cong refl) (auto dest: set_zip_leftD)
      have flt: "filter (\<lambda>f. P f \<noteq> [] \<and> f \<notin> set (keys @ [x])) fs
                   = filter (\<lambda>y. y \<noteq> x) (filter (\<lambda>f. P f \<noteq> [] \<and> f \<notin> set keys) fs)"
        by (auto intro: filter_cong)
      have new: "map (\<lambda>f. \<lparr>MetricSeries_Title = v, MetricSeries_Points = ?E fs f\<rparr>)
                   (firstOccurrences (filter (\<lambda>f. P f \<noteq> [] \<and> f \<notin> set (keys @ [x])) fs))
                 = map (\<lambda>f. \<lparr>MetricSeries_Title = v, MetricSeries_Points = ?E (x # fs) f\<rparr>)
                     (filter (\<lambda>y. y \<noteq> x)
                        (firstOccurrences (filter (\<lambda>f. P f \<noteq> [] \<and> f \<notin> set keys) fs)))"
        unfolding flt filter_firstOccurrences [symmetric]
        by (intro map_cong refl) auto
      have "fst (fold (\<lambda>f. appendAt v f (P f)) (x # fs) (series, indexSeries))
              = fst (fold (\<lambda>f. appendAt v f (P f)) fs
                       (series @ [?s'], indexSeries(x \<mapsto> length series)))"
        by (simp add: step)
      also have "\<dots> = map (\<lambda>(k, s). s\<lparr>MetricSeries_Points := MetricSeries_Points s @ ?E fs k\<rparr>)
                         (zip (keys @ [x]) (series @ [?s']))
                       @ map (\<lambda>f. \<lparr>MetricSeries_Title = v, MetricSeries_Points = ?E fs f\<rparr>)
                           (firstOccurrences
                              (filter (\<lambda>f. P f \<noteq> [] \<and> f \<notin> set (keys @ [x])) fs))"
        by (rule Cons.IH [OF inv'])
      also have "\<dots> = map (\<lambda>(k, s). s\<lparr>MetricSeries_Points := MetricSeries_Points s @ ?E (x # fs) k\<rparr>)
                         (zip keys series)
                       @ map (\<lambda>f. \<lparr>MetricSeries_Title = v, MetricSeries_Points = ?E (x # fs) f\<rparr>)
                           (firstOccurrences
                              (filter (\<lambda>f. P f \<noteq> [] \<and> f \<notin> set keys) (x # fs)))"
        unfolding new using l False nx by (simp add: old [symmetric] del: filter.simps) simp
      finally show ?thesis .
    qed
  qed
qed

lemma seriesInv_empty: "seriesInv [] ([], Map.empty)"
  by (simp add: seriesInv_def)

lemma SeriesFor_seriesSpec: "SeriesFor recs metric version filter' = seriesSpec recs metric version filter'"
  using fold_appendAt_closed_form [OF seriesInv_empty]
  by (simp add: SeriesFor_def seriesSpec_def seriesLoop_appendAt [OF seriesInv_empty] Let_def)

lemma pointsFor_empty_iff:
  "pointsFor recs m v cs f = [] \<longleftrightarrow> (\<forall>c \<in> set cs. \<forall>b \<in> set recs. \<not> matchesKey m v f c b)"
  by (auto simp: pointsFor_def filter_empty_conv)

text \<open>
  Claim C5. \<^verbatim>\<open>SeriesFor\<close> returns the series of the specification: one series, titled
  by the version, for each function of the category's function list that has a matching
  record, in the order in which these functions first occur in the list, holding the
  points of the function's matching records in the order of the category's context
  list, and within one context in the order of the records. So there are as
  many series as there are functions in the list with a matching record, never two for
  one function, and there is no series exactly when no record matches the metric, the
  version, a listed function and a listed context.
\<close>

theorem SeriesFor_one_series_per_function:
  "SeriesFor recs metric version filter' = seriesSpec recs metric version filter'
   \<and> length (SeriesFor recs metric version filter')
       = card {function \<in> set (Includes_Functions (Category_Includes filter')).
                 pointsFor recs metric version (Includes_Contexts (Category_Includes filter'))
                   function \<noteq> []}
   \<and> ((SeriesFor recs metric version filter' = [])
        = (filter (\<lambda>bench. ParsedBenchmark_Metric bench = metric
                      \<and> ParsedBenchmark_Version bench = version
                      \<and> ParsedBenchmark_Function bench
                          \<in> set (Includes_Functions (Category_Includes filter'))
                      \<and> ParsedBenchmark_Context bench
                          \<in> set (Includes_Contexts (Category_Includes filter')))
             recs = []))"
proof (intro conjI)
  let ?fs = "Includes_Functions (Category_Includes filter')"
  let ?cs = "Includes_Contexts (Category_Includes filter')"
  let ?P = "pointsFor recs metric version ?cs"
  show "SeriesFor recs metric version filter' = seriesSpec recs metric version filter'"
    by (rule SeriesFor_seriesSpec)
  have len: "length (SeriesFor recs metric version filter')
               = card (set (filter (\<lambda>f. ?P f \<noteq> []) ?fs))"
    by (simp add: SeriesFor_seriesSpec seriesSpec_def Let_def length_firstOccurrences)
  moreover have "set (filter (\<lambda>f. ?P f \<noteq> []) ?fs) = {f \<in> set ?fs. ?P f \<noteq> []}"
    by auto
  ultimately show "length (SeriesFor recs metric version filter')
       = card {function \<in> set ?fs. ?P function \<noteq> []}"
    by simp
  have "SeriesFor recs metric version filter' = [] \<longleftrightarrow> filter (\<lambda>f. ?P f \<noteq> []) ?fs = []"
    using len by (metis card_0_eq List.finite_set length_0_conv set_empty)
  also have "\<dots> \<longleftrightarrow> (\<forall>f \<in> set ?fs. \<forall>c \<in> set ?cs. \<forall>b \<in> set recs. \<not> matchesKey metric version f c b)"
    by (simp add: filter_empty_conv pointsFor_empty_iff)
  also have "\<dots> \<longleftrightarrow> filter (\<lambda>bench. ParsedBenchmark_Metric bench = metric
                      \<and> ParsedBenchmark_Version bench = version
                      \<and> ParsedBenchmark_Function bench \<in> set ?fs
                      \<and> ParsedBenchmark_Context bench \<in> set ?cs) recs = []"
    by (auto simp: filter_empty_conv matchesKey_def)
  finally show "(SeriesFor recs metric version filter' = [])
        = (filter (\<lambda>bench. ParsedBenchmark_Metric bench = metric
                      \<and> ParsedBenchmark_Version bench = version
                      \<and> ParsedBenchmark_Function bench \<in> set ?fs
                      \<and> ParsedBenchmark_Context bench \<in> set ?cs) recs = [])" .
qed

subsection \<open>The two encodings of a report\<close>

lemma Split_line:
  "sep \<notin> set l \<Longrightarrow> Split (l @ sep # rest) sep = l # Split rest sep"
  by (induction l) auto

lemma Split_no_separator: "sep \<notin> set l \<Longrightarrow> Split l sep = [l]"
  by (induction l) auto

lemma Split_eventStream:
  "\<forall>l \<in> set lines. newline \<notin> set l \<Longrightarrow> Split (eventStream lines) newline = lines @ [[]]"
proof (induction lines)
  case Nil
  show ?case by (simp add: eventStream_def)
next
  case (Cons l lines)
  have "eventStream (l # lines) = l @ newline # eventStream lines"
    by (simp add: eventStream_def)
  with Cons show ?case by (simp add: Split_line)
qed

lemma rawLines_eventStream:
  "\<forall>l \<in> set lines. newline \<notin> set l \<Longrightarrow> rawLines (eventStream lines) = lines"
  by (simp add: rawLines_def Split_eventStream)

lemma scanTokens_short:
  "\<forall>l \<in> set lines. length l < MaxScanTokenSize \<Longrightarrow> scanTokens lines = (map dropCR lines, False)"
  by (induction lines) auto

lemma scanTokens_long:
  "MaxScanTokenSize \<le> length l \<Longrightarrow> scanTokens (l # ls) = ([], True)"
  by simp

lemma fold_collectOutput:
  "list_all2 (encodesEvent lib) lines events \<Longrightarrow>
     fold (collectOutput lib) (map dropCR lines) acc = acc @ outputText events"
proof (induction lines events arbitrary: acc rule: list_all2_induct)
  case Nil
  show ?case by (simp add: outputText_def)
next
  case (Cons line lines event events)
  from Cons.hyps(1) have "collectOutput lib (dropCR line) acc
      = (if testEvent_Action event = ''output'' then acc @ testEvent_Output event else acc)"
    by (auto simp: collectOutput_def encodesEvent_def)
  then show ?case
    by (simp add: Cons.IH outputText_def)
qed

lemma parseJSON_eventStream:
  assumes "list_all2 (encodesEvent lib) lines events"
    and "\<forall>l \<in> set lines. length l < MaxScanTokenSize"
  shows "parseJSON lib (Reader (eventStream lines) None)
           = (case parseText lib (Reader (outputText events) None) of
                (s, None) \<Rightarrow> (s, None)
              | (s, Some err) \<Rightarrow> (s, Some (Errorf ''parsing benchmark output: %w'' [] err)))"
proof -
  from assms(1) have "\<forall>l \<in> set lines. newline \<notin> set l"
    by (auto simp: list_all2_conv_all_nth in_set_conv_nth encodesEvent_def)
  then have "Scanner_run (Reader (eventStream lines) None) = (map dropCR lines, None)"
    using assms(2) by (simp add: Scanner_run_def rawLines_eventStream scanTokens_short)
  then show ?thesis
    using fold_collectOutput [OF assms(1), of "[]"]
    by (simp add: parseJSON_def parseText_def ReadAll_def Let_def split: sum.splits)
qed

subsection \<open>The order of a range over a Set\<close>

lemma recordsOfSet_entries:
  "recordsOfSet cfg s = concat (map (recordsOfEntry cfg s) (Set_Set s))"
proof -
  have "recordsOfEntry cfg s
          = (\<lambda>p. concat (map (recordsOfBench cfg (Set_File s) (Set_Environment s)) (snd p)))"
    by (simp add: fun_eq_iff recordsOfEntry_def)
  then show ?thesis
    by (simp add: recordsOfSet_def split_def)
qed

lemma recordsOfEntry_sameGoSet:
  "sameGoSet s s' \<Longrightarrow> recordsOfEntry cfg s = recordsOfEntry cfg s'"
  by (simp add: sameGoSet_def recordsOfEntry_def fun_eq_iff)

lemma sameGoSet_sym: "sameGoSet s s' \<Longrightarrow> sameGoSet s' s"
  by (auto simp: sameGoSet_def)

lemma lists_of_one_element:
  assumes "distinct xs" and "distinct ys" and "set xs = set ys"
    and "\<And>x y. x \<in> set xs \<Longrightarrow> y \<in> set xs \<Longrightarrow> x = y"
  shows "xs = ys"
proof (cases xs)
  case Nil
  with assms(3) show ?thesis by simp
next
  case (Cons x xs')
  have "xs' = []"
  proof (cases xs')
    case Nil
    then show ?thesis .
  next
    case (Cons x' xs'')
    with \<open>xs = x # xs'\<close> assms(4) [of x x'] assms(1) show ?thesis by simp
  qed
  with Cons assms(3) have ys: "set ys = {x}" by simp
  then obtain y ys' where y: "ys = y # ys'" by (cases ys) auto
  with ys have "y = x" "set ys' \<subseteq> {x}" by auto
  with y assms(2) have "ys' = []" by (cases ys') auto
  with y \<open>y = x\<close> Cons \<open>xs' = []\<close> show ?thesis by simp
qed

lemma concat_map_nonempty:
  "concat (map h xs) = concat (map h (filter (\<lambda>x. h x \<noteq> []) xs))"
  by (induction xs) auto

lemma concat_map_reordered:
  assumes "distinct xs" and "distinct ys" and "set xs = set ys"
    and "\<And>x y. x \<in> set xs \<Longrightarrow> y \<in> set xs \<Longrightarrow> h x \<noteq> [] \<Longrightarrow> h y \<noteq> [] \<Longrightarrow> x = y"
  shows "concat (map h xs) = concat (map h ys)"
proof -
  have "filter (\<lambda>x. h x \<noteq> []) xs = filter (\<lambda>x. h x \<noteq> []) ys"
    using assms by (intro lists_of_one_element) auto
  then show ?thesis
    using concat_map_nonempty [of h xs] concat_map_nonempty [of h ys] by simp
qed

lemma filter_recordsOfSet_sameGoSet:
  assumes "sameGoSet s s'" and "unambiguous cfg s"
  shows "filter (matchesKey m v f c) (recordsOfSet cfg s)
           = filter (matchesKey m v f c) (recordsOfSet cfg s')"
proof -
  let ?h = "\<lambda>e. filter (matchesKey m v f c) (recordsOfEntry cfg s e)"
  from assms(1) have d: "distinct (Set_Set s)" "distinct (Set_Set s')"
    and e: "set (Set_Set s) = set (Set_Set s')"
    by (auto simp: sameGoSet_def dest: distinct_map [THEN iffD1])
  have one: "e1 = e2"
    if "e1 \<in> set (Set_Set s)" "e2 \<in> set (Set_Set s)" "?h e1 \<noteq> []" "?h e2 \<noteq> []" for e1 e2
  proof -
    from that(3) obtain b1 where b1: "b1 \<in> set (recordsOfEntry cfg s e1)" "matchesKey m v f c b1"
      by (auto simp: filter_empty_conv)
    from that(4) obtain b2 where b2: "b2 \<in> set (recordsOfEntry cfg s e2)" "matchesKey m v f c b2"
      by (auto simp: filter_empty_conv)
    from b1(2) b2(2) have "ParsedBenchmark_Function b1 = ParsedBenchmark_Function b2
        \<and> ParsedBenchmark_Version b1 = ParsedBenchmark_Version b2
        \<and> ParsedBenchmark_Context b1 = ParsedBenchmark_Context b2"
      by (simp add: matchesKey_def)
    with assms(2) that(1,2) b1(1) b2(1) show ?thesis
      unfolding unambiguous_def by blast
  qed
  have "concat (map ?h (Set_Set s)) = concat (map ?h (Set_Set s'))"
    using d e one by (rule concat_map_reordered)
  then show ?thesis
    by (simp add: recordsOfSet_entries filter_concat comp_def
          recordsOfEntry_sameGoSet [OF assms(1)])
qed

lemma filter_records_sameGoSet:
  assumes "list_all2 sameGoSet sets sets'" and "\<forall>s \<in> set sets. unambiguous cfg s"
  shows "filter (matchesKey m v f c) (concat (map (recordsOfSet cfg) sets))
           = filter (matchesKey m v f c) (concat (map (recordsOfSet cfg) sets'))"
  using assms
proof (induction sets sets' rule: list_all2_induct)
  case Nil
  show ?case by simp
next
  case (Cons s sets s' sets')
  then show ?case
    by (simp add: filter_recordsOfSet_sameGoSet)
qed

lemma populateCategories_same_matches:
  assumes "\<And>m v f c. filter (matchesKey m v f c) recs = filter (matchesKey m v f c) recs'"
  shows "populateCategories cfg recs = populateCategories cfg recs'"
proof -
  have "pointsFor recs m v cs f = pointsFor recs' m v cs f" for m v cs f
    by (simp add: pointsFor_def assms)
  then have "pointsFor recs m v cs = pointsFor recs' m v cs" for m v cs
    by (simp add: fun_eq_iff)
  then have "SeriesFor recs m v cat = SeriesFor recs' m v cat" for m v cat
    by (simp add: SeriesFor_seriesSpec seriesSpec_def)
  then show ?thesis
    by (simp add: populateCategories_def categoryData_def)
qed

lemma Scenarize_range_order:
  assumes "list_all2 sameGoSet sets sets'" and "\<forall>s \<in> set sets. unambiguous cfg s"
  shows "fst (Scenarize cfg sets) = fst (Scenarize cfg sets')"
proof -
  have "populateCategories cfg (concat (map (recordsOfSet cfg) sets))
          = populateCategories cfg (concat (map (recordsOfSet cfg) sets'))"
    by (rule populateCategories_same_matches) (rule filter_records_sameGoSet [OF assms])
  then show ?thesis
    by (simp add: Scenarize_fst parseBenchmarks_records)
qed
lemma ParseFiles_single:
  "ParseFiles lib isJSON [(path, Inr r)] [] =
     (case ParseInput lib isJSON r of
        (_, Some err) \<Rightarrow> ([], Some err)
      | (s, None) \<Rightarrow> ([s\<lparr>Set_File := path\<rparr>], None))"
  by (simp split: prod.splits option.splits)

text \<open>
  Claim C8, as amended. When every line of a structured event stream encodes an event
  and is shorter than the scanner's buffer of 65536 bytes, parsing the stream through the
  structured path and parsing the text carried by its \<^verbatim>\<open>output\<close> events through the
  plain-text path return equal \<^verbatim>\<open>Set\<close>s, both with an error or both without, and
  \<^verbatim>\<open>ParseFiles\<close> collects the same sets from either input. When moreover the report is
  unambiguous, no two of its benchmark names being classified to the same function,
  version and context, the two runs give the same scenario, in whatever order each of
  them ranges over the \<^verbatim>\<open>Set\<close>.
\<close>

theorem encoding_equivalence:
  assumes "list_all2 (encodesEvent lib) lines events"
    and "\<forall>l \<in> set lines. length l < MaxScanTokenSize"
  shows "fst (parseJSON lib (Reader (eventStream lines) None))
           = fst (parseText lib (Reader (outputText events) None))
     \<and> (snd (parseJSON lib (Reader (eventStream lines) None)) = None)
         = (snd (parseText lib (Reader (outputText events) None)) = None)
     \<and> fst (ParseFiles lib True [(path, Inr (Reader (eventStream lines) None))] [])
         = fst (ParseFiles lib False [(path, Inr (Reader (outputText events) None))] [])
     \<and> (list_all2 sameGoSet
           (fst (ParseFiles lib True [(path, Inr (Reader (eventStream lines) None))] [])) setsJ
         \<and> list_all2 sameGoSet
             (fst (ParseFiles lib False [(path, Inr (Reader (outputText events) None))] [])) setsT
         \<and> (\<forall>s \<in> set (fst (ParseFiles lib False
                                [(path, Inr (Reader (outputText events) None))] [])).
               unambiguous cfg s)
         \<longrightarrow> fst (Scenarize cfg setsJ) = fst (Scenarize cfg setsT))"
proof -
  note eq = parseJSON_eventStream [OF assms]
  obtain s e where t: "parseText lib (Reader (outputText events) None) = (s, e)"
    by (cases "parseText lib (Reader (outputText events) None)")
  have j: "parseJSON lib (Reader (eventStream lines) None)
             = (s, map_option (Errorf ''parsing benchmark output: %w'' []) e)"
    using eq t by (cases e) simp_all
  let ?J = "fst (ParseFiles lib True [(path, Inr (Reader (eventStream lines) None))] [])"
  let ?T = "fst (ParseFiles lib False [(path, Inr (Reader (outputText events) None))] [])"
  have files: "?J = ?T"
    by (cases e) (simp_all add: ParseFiles_single ParseInput_def t j)
  have order: "fst (Scenarize cfg setsJ) = fst (Scenarize cfg setsT)"
    if "list_all2 sameGoSet ?J setsJ" "list_all2 sameGoSet ?T setsT"
      "\<forall>s \<in> set ?T. unambiguous cfg s"
  proof -
    from that(1) files have "list_all2 sameGoSet ?T setsJ" by simp
    from Scenarize_range_order [OF this that(3)] Scenarize_range_order [OF that(2) that(3)]
    show ?thesis by simp
  qed
  from t j have "fst (parseJSON lib (Reader (eventStream lines) None))
           = fst (parseText lib (Reader (outputText events) None))"
    "(snd (parseJSON lib (Reader (eventStream lines) None)) = None)
         = (snd (parseText lib (Reader (outputText events) None)) = None)"
    by simp_all
  with files order show ?thesis
    by blast
qed

lemma exRule_facts:
  "prefix ''BenchmarkEqual'' ''BenchmarkEqual/a''"
  "prefix ''BenchmarkEqual'' ''BenchmarkEqual/b''"
  "\<not> suffix ''_generic'' ''BenchmarkEqual/a''"
  "\<not> suffix ''_generic'' ''BenchmarkEqual/b''"
  by code_simp+

lemma exRule_lookups:
  "GetMetric exConfigRule = GetMetric exConfig"
  "GetVersion exConfigRule = GetVersion exConfig"
  "Config_Categories exConfigRule = [exCategory]"
  "Config_Name exConfigRule = ''example''"
  "Config_Environment exConfigRule = ''''"
  by (simp_all add: exConfigRule_def GetMetric_def GetVersion_def fun_eq_iff exConfig_def)

lemma exRule_records_by_file:
  assumes "prefix ''BenchmarkEqual'' (Benchmark_Name b)"
    and "\<not> suffix ''_generic'' (Benchmark_Name b)"
  shows "recordsOfBench exConfigRule ''baseline.txt'' env b
           = [\<lparr>ParsedBenchmark_Function = ''equal'', ParsedBenchmark_Version = ''generic'',
                ParsedBenchmark_Context = ''int'', ParsedBenchmark_Metric = MetricNsPerOp,
                ParsedBenchmark_Name = ''Ns Per Op'', ParsedBenchmark_Value = Benchmark_NsPerOp b,
                ParsedBenchmark_Environment = env\<rparr>]"
proof -
  have "parseBenchmarkName exConfigRule (Benchmark_Name b) ''baseline.txt'' env
          = ((\<lparr>ParsedBenchmark_Function = ''equal'', ParsedBenchmark_Version = ''generic'',
                ParsedBenchmark_Context = ''int'', ParsedBenchmark_Metric = '''',
                ParsedBenchmark_Name = '''', ParsedBenchmark_Value = 0,
                ParsedBenchmark_Environment = env\<rparr>, True), [])"
    using assms
    by (simp add: parseBenchmarkName_def FindFunction_def FindVersion_def FindContext_def
          FindVersionFromFile_def FindContextFromFile_def exConfigRule_def exConfig_def
          exFunction_def exVersion_def exRule_def exFileVersion_def exFileContext_def
          Object_MatchString_def File_MatchString_def ex_file_facts defaultString_def)
  then show ?thesis
    by (simp add: recordsOfBench_def ingest_def addMetric_eq exRule_lookups ex_metrics
          exMetric_def)
qed

lemma exRule_records_by_name:
  assumes "prefix ''BenchmarkEqual'' (Benchmark_Name b)"
    and "suffix ''_generic'' (Benchmark_Name b)"
  shows "recordsOfBench exConfigRule ''baseline.txt'' env b
           = [\<lparr>ParsedBenchmark_Function = ''equal'', ParsedBenchmark_Version = ''generic'',
                ParsedBenchmark_Context = ''generic'', ParsedBenchmark_Metric = MetricNsPerOp,
                ParsedBenchmark_Name = ''Ns Per Op'', ParsedBenchmark_Value = Benchmark_NsPerOp b,
                ParsedBenchmark_Environment = env\<rparr>]"
proof -
  have "parseBenchmarkName exConfigRule (Benchmark_Name b) ''baseline.txt'' env
          = ((\<lparr>ParsedBenchmark_Function = ''equal'', ParsedBenchmark_Version = ''generic'',
                ParsedBenchmark_Context = ''generic'', ParsedBenchmark_Metric = '''',
                ParsedBenchmark_Name = '''', ParsedBenchmark_Value = 0,
                ParsedBenchmark_Environment = env\<rparr>, True), [])"
    using assms
    by (simp add: parseBenchmarkName_def FindFunction_def FindVersion_def FindContext_def
          exConfigRule_def exConfig_def exFunction_def exVersion_def
          Object_MatchString_def defaultString_def)
  then show ?thesis
    by (simp add: recordsOfBench_def ingest_def addMetric_eq exRule_lookups ex_metrics
          exMetric_def)
qed

lemma exRule_records:
  "recordsOfBench exConfigRule ''baseline.txt'' env exBenchA
     = [\<lparr>ParsedBenchmark_Function = ''equal'', ParsedBenchmark_Version = ''generic'',
          ParsedBenchmark_Context = ''int'', ParsedBenchmark_Metric = MetricNsPerOp,
          ParsedBenchmark_Name = ''Ns Per Op'', ParsedBenchmark_Value = 1,
          ParsedBenchmark_Environment = env\<rparr>]"
  "recordsOfBench exConfigRule ''baseline.txt'' env exBenchB
     = [\<lparr>ParsedBenchmark_Function = ''equal'', ParsedBenchmark_Version = ''generic'',
          ParsedBenchmark_Context = ''int'', ParsedBenchmark_Metric = MetricNsPerOp,
          ParsedBenchmark_Name = ''Ns Per Op'', ParsedBenchmark_Value = 2,
          ParsedBenchmark_Environment = env\<rparr>]"
  "recordsOfBench exConfigRule ''baseline.txt'' env exBenchG
     = [\<lparr>ParsedBenchmark_Function = ''equal'', ParsedBenchmark_Version = ''generic'',
          ParsedBenchmark_Context = ''generic'', ParsedBenchmark_Metric = MetricNsPerOp,
          ParsedBenchmark_Name = ''Ns Per Op'', ParsedBenchmark_Value = 3,
          ParsedBenchmark_Environment = env\<rparr>]"
  using exRule_records_by_file [of exBenchA env] exRule_records_by_file [of exBenchB env]
    exRule_records_by_name [of exBenchG env]
  by (simp_all add: exBenchA_def exBenchB_def exBenchG_def exRule_facts ex_file_facts)

lemma exRule_points:
  "map MetricPoint_Value
     (scenarioPoints (fst (Scenarize exConfigRule [exSetOf entries])))
   = map MetricPoint_Value
       (concat (map MetricSeries_Points
                  (SeriesFor (recordsOfSet exConfigRule (exSetOf entries)) MetricNsPerOp
                     ''generic'' exCategory)))"
  by (simp add: Scenarize_fst parseBenchmarks_records scenarioPoints_def populateCategories_def
        exRule_lookups zeroModelCategory_def categoryData_def exCategory_def ex_metrics
        ex_version ex_ids Let_def)
lemma exUnmarshal_line:
  "exUnmarshal (exLinePrefix @ t @ exLineSuffix)
     = Some \<lparr>testEvent_Time = '''', testEvent_Action = ''output'', testEvent_Package = '''',
              testEvent_Test = '''', testEvent_Output = t, testEvent_Elapsed = 0\<rparr>"
proof -
  have "suffix exLineSuffix (exLinePrefix @ t @ exLineSuffix)"
    by (metis append.assoc suffixI)
  then show ?thesis
    by (simp add: exUnmarshal_def)
qed

lemma ex_line_facts:
  "newline \<notin> set exLinePrefix" "newline \<notin> set exLineSuffix" "exLinePrefix \<noteq> []"
  by (simp_all add: exLinePrefix_def exLineSuffix_def newline_def)

lemma ex_encodesEvent:
  assumes "newline \<notin> set t"
  shows "encodesEvent exLib (exLinePrefix @ t @ exLineSuffix)
           \<lparr>testEvent_Time = '''', testEvent_Action = ''output'', testEvent_Package = '''',
             testEvent_Test = '''', testEvent_Output = t, testEvent_Elapsed = 0\<rparr>"
proof -
  have "dropCR (exLinePrefix @ t @ exLineSuffix) = exLinePrefix @ t @ exLineSuffix"
    by (simp add: dropCR_def exLineSuffix_def carriageReturn_def)
  then show ?thesis
    using assms by (simp add: encodesEvent_def exLib_def exUnmarshal_line ex_line_facts)
qed

lemma exLongText_facts:
  "length exLongText = MaxScanTokenSize - 1" "newline \<notin> set exLongText"
  "exLongText = CHR ''x'' # replicate (MaxScanTokenSize - 2) (CHR ''x'')"
proof -
  have "MaxScanTokenSize - 1 = Suc (MaxScanTokenSize - 2)"
    by (simp add: MaxScanTokenSize_def)
  then show "exLongText = CHR ''x'' # replicate (MaxScanTokenSize - 2) (CHR ''x'')"
    unfolding exLongText_def by (metis replicate_Suc)
qed (simp_all add: exLongText_def newline_def)

lemma ex_parseText_long:
  "parseText exLib (Reader exLongText None)
     = (\<lparr>Set_Set = [], Set_File = '''', Set_Environment = ''unknown environment''\<rparr>, None)"
proof -
  have split: "Split exLongText newline = [exLongText]"
    by (simp add: Split_no_separator exLongText_facts(2))
  have "exLongText \<noteq> []"
    by (simp add: exLongText_facts(3))
  with split have "rawLines exLongText = [exLongText]"
    by (simp add: rawLines_def)
  moreover have "length exLongText < MaxScanTokenSize"
    by (simp add: exLongText_facts(1) MaxScanTokenSize_def)
  ultimately have parsed: "exParseSet exLongText = Inr []"
    by (simp add: exParseSet_def)
  have "environmentStep exLib exLongText [] = []"
    by (subst exLongText_facts(3)) (simp add: environmentStep_def exLib_def)
  with split parsed show ?thesis
    by (simp add: parseText_def ReadAll_def extractEnvironment_def) (simp add: exLib_def parsed)
qed

lemma ex_parseJSON_long:
  "parseJSON exLib (Reader (eventStream [exLinePrefix @ exLongText @ exLineSuffix]) None)
     = (zeroSet, Some (Errorf ''scanning input: %w'' [] ErrTooLong))"
proof -
  have "newline \<notin> set (exLinePrefix @ exLongText @ exLineSuffix)"
    by (simp add: exLongText_facts(2) ex_line_facts)
  then have "rawLines (eventStream [exLinePrefix @ exLongText @ exLineSuffix])
               = [exLinePrefix @ exLongText @ exLineSuffix]"
    by (intro rawLines_eventStream) simp
  moreover have "MaxScanTokenSize \<le> length (exLinePrefix @ exLongText @ exLineSuffix)"
  proof -
    have "0 < length exLinePrefix"
      using ex_line_facts(3) by simp
    then have "MaxScanTokenSize \<le> length exLinePrefix + (MaxScanTokenSize - 1) + length exLineSuffix"
      by arith
    then show ?thesis
      by (simp add: exLongText_facts(1))
  qed
  ultimately have "Scanner_run (Reader (eventStream [exLinePrefix @ exLongText @ exLineSuffix]) None)
                     = ([], Some ErrTooLong)"
    by (simp add: Scanner_run_def scanTokens_long del: scanTokens.simps)
  then show ?thesis
    by (simp add: parseJSON_def)
qed

lemma exReport_lines:
  "newline \<notin> set (exEventLine exReportLineA)" "newline \<notin> set (exEventLine exReportLineG)"
  "dropCR (exEventLine exReportLineA) = exEventLine exReportLineA"
  "dropCR (exEventLine exReportLineG) = exEventLine exReportLineG"
  "exEventLine exReportLineG \<noteq> exEventLine exReportLineA"
  "length (exEventLine exReportLineA) < MaxScanTokenSize"
  "length (exEventLine exReportLineG) < MaxScanTokenSize"
  by (simp_all add: exEventLine_def exReportLineA_def exReportLineG_def exLinePrefix_def
        exLineSuffix_def newline_def carriageReturn_def dropCR_def MaxScanTokenSize_def)

lemma exReport_encodesEvent:
  "encodesEvent exReportLib (exEventLine exReportLineA) (exEventOf (exReportLineA @ [newline]))"
  "encodesEvent exReportLib (exEventLine exReportLineG) (exEventOf (exReportLineG @ [newline]))"
proof -
  have "exEventLine exReportLineA \<noteq> []" "exEventLine exReportLineG \<noteq> []"
    by (simp_all add: exEventLine_def exLinePrefix_def)
  then show
    "encodesEvent exReportLib (exEventLine exReportLineA) (exEventOf (exReportLineA @ [newline]))"
    "encodesEvent exReportLib (exEventLine exReportLineG) (exEventOf (exReportLineG @ [newline]))"
    by (simp_all add: encodesEvent_def exReport_lines exReportLib_def exReportUnmarshal_def)
qed

lemma exReport_outputText:
  "outputText [exEventOf (exReportLineA @ [newline]), exEventOf (exReportLineG @ [newline])]
     = exReport"
  by (simp add: outputText_def exEventOf_def exReport_def)

lemma exReport_environment: "extractEnvironment exReportLib exReport = ''unknown environment''"
proof -
  have "newline \<notin> set exReportLineA" "newline \<notin> set exReportLineG"
    by (simp_all add: exReportLineA_def exReportLineG_def newline_def)
  then have "Split exReport newline = [exReportLineA, exReportLineG, []]"
    by (simp add: exReport_def Split_line)
  moreover have "environmentStep exReportLib exReportLineA [] = []"
    "environmentStep exReportLib exReportLineG [] = []"
    "environmentStep exReportLib [] [] = []"
    by (simp_all add: environmentStep_def exReportLib_def exReportLineA_def exReportLineG_def)
  ultimately show ?thesis
    by (simp add: extractEnvironment_def)
qed

lemma exReport_parseText:
  "parseText exReportLib (Reader exReport None)
     = (\<lparr>Set_Set = exReportEntries, Set_File = '''', Set_Environment = ''unknown environment''\<rparr>,
        None)"
proof -
  have "Lib_ParseSet exReportLib exReport = Inr exReportEntries"
    by (simp add: exReportLib_def exReportParseSet_def)
  then show ?thesis
    by (simp add: parseText_def ReadAll_def exReport_environment)
qed

lemma exReport_unambiguous: "unambiguous exConfigRule (exSetOf exReportEntries)"
  by (simp add: unambiguous_def exSetOf_def exReportEntries_def recordsOfEntry_def
        exRule_records)

lemma exReport_sameGoSet:
  "sameGoSet (exSetOf exReportEntries)
     (exSetOf [(''BenchmarkEqual_generic'', [exBenchG]), (''BenchmarkEqual/a'', [exBenchA])])"
  "sameGoSet (exSetOf exReportEntries) (exSetOf exReportEntries)"
  by (auto simp: sameGoSet_def exSetOf_def exReportEntries_def)

lemma exRule_series:
  "SeriesFor
     ([\<lparr>ParsedBenchmark_Function = ''equal'', ParsedBenchmark_Version = ''generic'',
         ParsedBenchmark_Context = ''int'', ParsedBenchmark_Metric = MetricNsPerOp,
         ParsedBenchmark_Name = ''Ns Per Op'', ParsedBenchmark_Value = v,
         ParsedBenchmark_Environment = env\<rparr>,
       \<lparr>ParsedBenchmark_Function = ''equal'', ParsedBenchmark_Version = ''generic'',
         ParsedBenchmark_Context = c, ParsedBenchmark_Metric = MetricNsPerOp,
         ParsedBenchmark_Name = ''Ns Per Op'', ParsedBenchmark_Value = w,
         ParsedBenchmark_Environment = env\<rparr>])
     MetricNsPerOp ''generic'' exCategory
   = [\<lparr>MetricSeries_Title = ''generic'',
        MetricSeries_Points =
          \<lparr>MetricPoint_Name = ''equal - generic - int'', MetricPoint_Value = v\<rparr>
          # (if c = ''int''
             then [\<lparr>MetricPoint_Name = ''equal - generic - int'', MetricPoint_Value = w\<rparr>]
             else [])\<rparr>]"
  by (simp add: SeriesFor_def seriesLoop_def seriesStep_def exCategory_def pointOf_def)

theorem encoding_equivalence_witness:
  "fst (parseJSON exReportLib
          (Reader (eventStream [exEventLine exReportLineA, exEventLine exReportLineG]) None))
     = \<lparr>Set_Set = exReportEntries, Set_File = '''', Set_Environment = ''unknown environment''\<rparr>
   \<and> snd (parseJSON exReportLib
            (Reader (eventStream [exEventLine exReportLineA, exEventLine exReportLineG]) None))
       = None
   \<and> fst (ParseFiles exReportLib True
            [(''baseline.txt'',
              Inr (Reader (eventStream [exEventLine exReportLineA, exEventLine exReportLineG])
                     None))] [])
       = [exSetOf exReportEntries]
   \<and> fst (Scenarize exConfigRule
            [exSetOf [(''BenchmarkEqual_generic'', [exBenchG]), (''BenchmarkEqual/a'', [exBenchA])]])
       = fst (Scenarize exConfigRule [exSetOf exReportEntries])
   \<and> map MetricPoint_Value (scenarioPoints (fst (Scenarize exConfigRule [exSetOf exReportEntries])))
       = [1]"
proof -
  let ?lines = "[exEventLine exReportLineA, exEventLine exReportLineG]"
  let ?events = "[exEventOf (exReportLineA @ [newline]), exEventOf (exReportLineG @ [newline])]"
  let ?swapped = "[(''BenchmarkEqual_generic'', [exBenchG]), (''BenchmarkEqual/a'', [exBenchA])]"
  have h1: "list_all2 (encodesEvent exReportLib) ?lines ?events"
    by (simp add: exReport_encodesEvent)
  have h2: "\<forall>l \<in> set ?lines. length l < MaxScanTokenSize"
    by (simp add: exReport_lines)
  note eqv = encoding_equivalence [OF h1 h2, of "''baseline.txt''" "[exSetOf ?swapped]"
      "[exSetOf exReportEntries]" exConfigRule]
  have plain: "fst (ParseFiles exReportLib False
                     [(''baseline.txt'', Inr (Reader (outputText ?events) None))] [])
                = [exSetOf exReportEntries]"
    by (simp add: ParseFiles_single ParseInput_def exReport_outputText exReport_parseText
          exSetOf_def)
  from eqv [THEN conjunct1] have c1:
    "fst (parseJSON exReportLib (Reader (eventStream ?lines) None))
       = \<lparr>Set_Set = exReportEntries, Set_File = '''', Set_Environment = ''unknown environment''\<rparr>"
    by (simp add: exReport_outputText exReport_parseText)
  from eqv [THEN conjunct2, THEN conjunct1] have c2:
    "snd (parseJSON exReportLib (Reader (eventStream ?lines) None)) = None"
    by (simp add: exReport_outputText exReport_parseText)
  from eqv [THEN conjunct2, THEN conjunct2, THEN conjunct1] plain have c3:
    "fst (ParseFiles exReportLib True [(''baseline.txt'', Inr (Reader (eventStream ?lines) None))] [])
       = [exSetOf exReportEntries]"
    by simp
  have "list_all2 sameGoSet
          (fst (ParseFiles exReportLib True
                  [(''baseline.txt'', Inr (Reader (eventStream ?lines) None))] []))
          [exSetOf ?swapped]
        \<and> list_all2 sameGoSet
            (fst (ParseFiles exReportLib False
                    [(''baseline.txt'', Inr (Reader (outputText ?events) None))] []))
            [exSetOf exReportEntries]
        \<and> (\<forall>s \<in> set (fst (ParseFiles exReportLib False
                               [(''baseline.txt'', Inr (Reader (outputText ?events) None))] [])).
              unambiguous exConfigRule s)"
    unfolding c3 plain by (simp add: exReport_sameGoSet exReport_unambiguous)
  with eqv [THEN conjunct2, THEN conjunct2, THEN conjunct2] have c4:
    "fst (Scenarize exConfigRule [exSetOf ?swapped])
       = fst (Scenarize exConfigRule [exSetOf exReportEntries])"
    by (rule mp)
  have c5: "map MetricPoint_Value
              (scenarioPoints (fst (Scenarize exConfigRule [exSetOf exReportEntries]))) = [1]"
    unfolding exRule_points
    by (simp add: recordsOfSet_def exSetOf_def exReportEntries_def exRule_records exRule_series)
  from c1 c2 c3 c4 c5 show ?thesis
    by (intro conjI)
qed

lemma ex_long_line:
  "encodesEvent exLib (exLinePrefix @ exLongText @ exLineSuffix)
     \<lparr>testEvent_Time = '''', testEvent_Action = ''output'', testEvent_Package = '''',
       testEvent_Test = '''', testEvent_Output = exLongText, testEvent_Elapsed = 0\<rparr>
   \<and> outputText [\<lparr>testEvent_Time = '''', testEvent_Action = ''output'', testEvent_Package = '''',
                    testEvent_Test = '''', testEvent_Output = exLongText, testEvent_Elapsed = 0\<rparr>]
       = exLongText
   \<and> parseJSON exLib (Reader (eventStream [exLinePrefix @ exLongText @ exLineSuffix]) None)
       = (zeroSet, Some (Errorf ''scanning input: %w'' [] ErrTooLong))
   \<and> parseText exLib (Reader exLongText None)
       = (\<lparr>Set_Set = [], Set_File = '''', Set_Environment = ''unknown environment''\<rparr>, None)
   \<and> fst (parseJSON exLib (Reader (eventStream [exLinePrefix @ exLongText @ exLineSuffix]) None))
       \<noteq> fst (parseText exLib (Reader exLongText None))"
  by (simp add: ex_encodesEvent exLongText_facts(2) outputText_def ex_parseJSON_long
        ex_parseText_long zeroSet_def)

lemma ex_range_order:
  "sameGoSet (exSetOf [(''BenchmarkEqual/a'', [exBenchA]), (''BenchmarkEqual/b'', [exBenchB])])
     (exSetOf [(''BenchmarkEqual/b'', [exBenchB]), (''BenchmarkEqual/a'', [exBenchA])])
   \<and> map (\<lambda>b. (ParsedBenchmark_Function b, ParsedBenchmark_Version b, ParsedBenchmark_Context b))
       (recordsOfSet exConfigRule
          (exSetOf [(''BenchmarkEqual/a'', [exBenchA]), (''BenchmarkEqual/b'', [exBenchB])]))
       = [(''equal'', ''generic'', ''int''), (''equal'', ''generic'', ''int'')]
   \<and> map MetricPoint_Value
       (scenarioPoints
          (fst (Scenarize exConfigRule
                  [exSetOf [(''BenchmarkEqual/a'', [exBenchA]), (''BenchmarkEqual/b'', [exBenchB])]])))
       = [1, 2]
   \<and> map MetricPoint_Value
       (scenarioPoints
          (fst (Scenarize exConfigRule
                  [exSetOf [(''BenchmarkEqual/b'', [exBenchB]), (''BenchmarkEqual/a'', [exBenchA])]])))
       = [2, 1]"
proof -
  have "sameGoSet (exSetOf [(''BenchmarkEqual/a'', [exBenchA]), (''BenchmarkEqual/b'', [exBenchB])])
     (exSetOf [(''BenchmarkEqual/b'', [exBenchB]), (''BenchmarkEqual/a'', [exBenchA])])"
    by (auto simp: sameGoSet_def exSetOf_def)
  moreover have "map MetricPoint_Value
       (scenarioPoints
          (fst (Scenarize exConfigRule
                  [exSetOf [(''BenchmarkEqual/a'', [exBenchA]), (''BenchmarkEqual/b'', [exBenchB])]])))
       = [1, 2]"
    unfolding exRule_points
    by (simp add: recordsOfSet_def exSetOf_def exRule_records exRule_series)
  moreover have "map MetricPoint_Value
       (scenarioPoints
          (fst (Scenarize exConfigRule
                  [exSetOf [(''BenchmarkEqual/b'', [exBenchB]), (''BenchmarkEqual/a'', [exBenchA])]])))
       = [2, 1]"
    unfolding exRule_points
    by (simp add: recordsOfSet_def exSetOf_def exRule_records exRule_series)
  ultimately show ?thesis
    by (simp add: recordsOfSet_def exSetOf_def exRule_records)
qed

text \<open>
  Claim C8, as stated, fails, in two ways. A text of one line of 65535 bytes, which a
  scanner's buffer still holds, is carried by one \<^verbatim>\<open>output\<close> event; the line of that
  event is longer than the text and does not fit the buffer, the structured path returns
  the zero \<^verbatim>\<open>Set\<close> with the error \<^verbatim>\<open>ErrTooLong\<close>, and the plain-text path returns a
  \<^verbatim>\<open>Set\<close> with the environment \<^verbatim>\<open>unknown environment\<close> and no error. And where the two
  paths do return the same \<^verbatim>\<open>Set\<close>, the scenario still depends on the order in which
  \<^verbatim>\<open>parseBenchmarks\<close> ranges over it: the measurements \<^verbatim>\<open>BenchmarkEqual/a\<close> and
  \<^verbatim>\<open>BenchmarkEqual/b\<close> of a report read from \<^verbatim>\<open>baseline.txt\<close> are both classified to the
  function \<^verbatim>\<open>equal\<close>, the version \<^verbatim>\<open>generic\<close> and the context \<^verbatim>\<open>int\<close>, and the two
  orders of one and the same \<^verbatim>\<open>Set\<close> give the series the points 1, 2 and the points 2, 1.
\<close>

theorem encoding_equivalence_fails:
  "(encodesEvent exLib (exLinePrefix @ exLongText @ exLineSuffix)
      \<lparr>testEvent_Time = '''', testEvent_Action = ''output'', testEvent_Package = '''',
        testEvent_Test = '''', testEvent_Output = exLongText, testEvent_Elapsed = 0\<rparr>
    \<and> outputText [\<lparr>testEvent_Time = '''', testEvent_Action = ''output'', testEvent_Package = '''',
                     testEvent_Test = '''', testEvent_Output = exLongText, testEvent_Elapsed = 0\<rparr>]
        = exLongText
    \<and> parseJSON exLib (Reader (eventStream [exLinePrefix @ exLongText @ exLineSuffix]) None)
        = (zeroSet, Some (Errorf ''scanning input: %w'' [] ErrTooLong))
    \<and> parseText exLib (Reader exLongText None)
        = (\<lparr>Set_Set = [], Set_File = '''', Set_Environment = ''unknown environment''\<rparr>, None)
    \<and> fst (parseJSON exLib (Reader (eventStream [exLinePrefix @ exLongText @ exLineSuffix]) None))
        \<noteq> fst (parseText exLib (Reader exLongText None)))
   \<and> (sameGoSet (exSetOf [(''BenchmarkEqual/a'', [exBenchA]), (''BenchmarkEqual/b'', [exBenchB])])
        (exSetOf [(''BenchmarkEqual/b'', [exBenchB]), (''BenchmarkEqual/a'', [exBenchA])])
      \<and> map (\<lambda>b. (ParsedBenchmark_Function b, ParsedBenchmark_Version b, ParsedBenchmark_Context b))
          (recordsOfSet exConfigRule
             (exSetOf [(''BenchmarkEqual/a'', [exBenchA]), (''BenchmarkEqual/b'', [exBenchB])]))
          = [(''equal'', ''generic'', ''int''), (''equal'', ''generic'', ''int'')]
      \<and> map MetricPoint_Value
          (scenarioPoints
             (fst (Scenarize exConfigRule
                     [exSetOf [(''BenchmarkEqual/a'', [exBenchA]), (''BenchmarkEqual/b'', [exBenchB])]])))
          = [1, 2]
      \<and> map MetricPoint_Value
          (scenarioPoints
             (fst (Scenarize exConfigRule
                     [exSetOf [(''BenchmarkEqual/b'', [exBenchB]), (''BenchmarkEqual/a'', [exBenchA])]])))
          = [2, 1])"
  using ex_long_line ex_range_order by (rule conjI)

end
